theory Spec2Isabelle
  imports Main "HOL-Library.Sublist"
begin

section \<open>Data model\<close>

text \<open>
  The two functions of the repository, \<open>filter_subset\<close> (get_random.py) and
  \<open>search_text_matches\<close> (search.py), work on a pandas DataFrame. The part of pandas
  they use is modelled here.

  A Python scalar is \<open>None\<close>, the float NaN, an integer or a string. Numbers are
  mathematical integers (floating point is outside the model). A string is a list of
  characters of code 0 to 255; those below 128 are the ASCII characters.
  The keyword arguments are a list of pairs, in the order of the call. The two \<open>print\<close>
  calls only report counts and are left out; the warnings of \<open>search_text_matches\<close> are
  returned with its result.
\<close>

datatype scalar = PNone | PNaN | PInt int | PStr string

text \<open>The value of a keyword argument: a scalar, a tuple or a list of scalars.\<close>

datatype pyvalue = Scalar scalar | PyTuple "scalar list" | PyList "scalar list"

text \<open>\<open>pd.api.types.is_numeric_dtype\<close> only separates numeric columns from the others.\<close>

datatype dtype = Numeric | Object

text \<open>
  A row is its index label (its identity) with its cells by column name. A DataFrame has
  its columns, each with its dtype, and its rows in order.
\<close>

type_synonym row = "nat \<times> (string \<times> scalar) list"

record DataFrame =
  columns :: "(string \<times> dtype) list"
  rows :: "row list"

datatype error =
    ValueError "string list"
  | KeyError string
  | TypeError
  | AttributeError
  | IndexError
  | LengthsMismatch
  | CompileError string
  | CompareError string

text \<open>
  \<open>ValueError cols\<close> is the \<open>ValueError\<close> of search.py line 79; \<open>cols\<close> is the list its
  message formats. \<open>KeyError\<close> is \<open>df[name]\<close> on an absent column, \<open>TypeError\<close> an ordering
  comparison of a numeric column with a string, \<open>AttributeError\<close> the \<open>.str\<close> accessor on
  a column without string values, \<open>IndexError\<close> \<open>random.choice\<close> on an empty sequence,
  and \<open>LengthsMismatch\<close> the \<open>ValueError\<close> of pandas when a column is compared with a list
  of another length. \<open>CompileError name\<close> is the exception \<open>name\<close> that \<open>re.compile\<close> raises
  (\<open>re.error\<close>, \<open>OverflowError\<close>, \<open>ValueError\<close>, ...), and \<open>CompareError name\<close> the exception
  \<open>name\<close> raised by a comparison that is left to the library below.
\<close>

datatype result =
    ReturnNone
  | Keys "scalar list"
  | Key scalar
  | KeyTurns scalar "scalar list"

text \<open>A compiled regular expression: its \<open>search\<close> and its \<open>match\<close>.\<close>

datatype regex = Regex (re_search: "string \<Rightarrow> bool") (re_match: "string \<Rightarrow> bool")

datatype cmp_op = Eq | Ge | Le

text \<open>
  Three behaviours of the libraries are parameters of the model, each a result or the
  name of the exception raised:
  \<^item> \<open>cmp_listlike\<close>: the comparisons of a column with a list or a tuple that the two
    functions never reach (an ordering comparison, the equality of a numeric column with
    a tuple and of another column with a list);
  \<^item> \<open>re_compile_other\<close>: \<open>re.compile\<close> on a pattern outside the syntax modelled below (the
    flag is \<open>re.IGNORECASE\<close>);
  \<^item> \<open>ignorecase_other\<close>: whether a character of the pattern and a character of the
    string are the same under \<open>re.IGNORECASE\<close>, when one of them is not ASCII.
\<close>

record library =
  cmp_listlike :: "cmp_op \<Rightarrow> dtype \<Rightarrow> scalar list \<Rightarrow> pyvalue \<Rightarrow> string + bool list"
  re_compile_other :: "string \<Rightarrow> bool \<Rightarrow> string + regex"
  ignorecase_other :: "char \<Rightarrow> char \<Rightarrow> bool"

section \<open>DataFrame operations\<close>

definition isna :: "scalar \<Rightarrow> bool" where
  "isna v = (v = PNone \<or> v = PNaN)"

definition dtype_of :: "DataFrame \<Rightarrow> string \<Rightarrow> dtype option" where
  "dtype_of d key = map_of (columns d) key"

definition in_columns :: "DataFrame \<Rightarrow> string \<Rightarrow> bool" where
  "in_columns d key = (dtype_of d key \<noteq> None)"

definition cell :: "row \<Rightarrow> string \<Rightarrow> scalar" where
  "cell r key = (case map_of (snd r) key of Some v \<Rightarrow> v | None \<Rightarrow> PNaN)"

text \<open>A numeric column holds numbers and NaN: any other cell reads as NaN.\<close>

fun as_dtype :: "dtype \<Rightarrow> scalar \<Rightarrow> scalar" where
  "as_dtype Numeric (PInt n) = PInt n"
| "as_dtype Numeric v = PNaN"
| "as_dtype Object v = v"

text \<open>The values of the column \<open>key\<close>, of dtype \<open>dt\<close>.\<close>

definition column_values :: "dtype \<Rightarrow> string \<Rightarrow> DataFrame \<Rightarrow> scalar list" where
  "column_values dt key d = map (\<lambda>r. as_dtype dt (cell r key)) (rows d)"

text \<open>\<open>d[key]\<close>: the column with its dtype, a \<open>KeyError\<close> when \<open>d\<close> has no such column.\<close>

type_synonym series = "dtype \<times> scalar list"

definition getitem :: "DataFrame \<Rightarrow> string \<Rightarrow> error + series" where
  "getitem d key =
     (case dtype_of d key of
        None \<Rightarrow> Inl (KeyError key)
      | Some dt \<Rightarrow> Inr (dt, column_values dt key d))"

text \<open>\<open>d[mask]\<close>: the rows where the mask is true, in their order.\<close>

definition select_rows :: "bool list \<Rightarrow> DataFrame \<Rightarrow> DataFrame" where
  "select_rows keep d = d\<lparr>rows := map snd (filter fst (zip keep (rows d)))\<rparr>"

definition df_empty :: "DataFrame \<Rightarrow> bool" where
  "df_empty d = (rows d = [] \<or> columns d = [])"

text \<open>\<open>Series.unique\<close>: the distinct values in order of first appearance.\<close>

fun unique_from :: "'a list \<Rightarrow> 'a list \<Rightarrow> 'a list" where
  "unique_from seen [] = []"
| "unique_from seen (x # xs) =
     (if x \<in> set seen then unique_from seen xs else x # unique_from (x # seen) xs)"

definition unique :: "'a list \<Rightarrow> 'a list" where
  "unique xs = unique_from [] xs"

text \<open>
  \<open>random.choice\<close>: the random source \<open>rnd\<close> gives, for a length \<open>n\<close>, the index drawn
  below \<open>n\<close>.
\<close>

definition random_choice :: "(nat \<Rightarrow> nat) \<Rightarrow> 'a list \<Rightarrow> error + 'a" where
  "random_choice rnd xs =
     (if xs = [] then Inl IndexError else Inr (xs ! (rnd (length xs) mod length xs)))"

subsection \<open>Comparisons of a column\<close>

text \<open>
  \<open>column == v\<close> for a scalar \<open>v\<close>: false everywhere when \<open>v\<close> is \<open>None\<close> or NaN, never an
  error. \<open>column >= v\<close> and \<open>column <= v\<close> on a numeric column: a \<open>TypeError\<close> for a string,
  false on NaN cells and for a NaN \<open>v\<close>.
\<close>

definition scalar_eq :: "scalar list \<Rightarrow> scalar \<Rightarrow> bool list" where
  "scalar_eq xs v = map (\<lambda>x. \<not> isna v \<and> x = v) xs"

fun num_cmp :: "cmp_op \<Rightarrow> int \<Rightarrow> int \<Rightarrow> bool" where
  "num_cmp Eq m n = (m = n)"
| "num_cmp Ge m n = (m \<ge> n)"
| "num_cmp Le m n = (m \<le> n)"

fun cell_cmp :: "cmp_op \<Rightarrow> int \<Rightarrow> scalar \<Rightarrow> bool" where
  "cell_cmp opr n (PInt m) = num_cmp opr m n"
| "cell_cmp opr n v = False"

fun scalar_order :: "cmp_op \<Rightarrow> scalar list \<Rightarrow> scalar \<Rightarrow> error + bool list" where
  "scalar_order opr xs (PStr s) = Inl TypeError"
| "scalar_order opr xs (PInt n) = Inr (map (cell_cmp opr n) xs)"
| "scalar_order opr xs v = Inr (map (\<lambda>x. False) xs)"

text \<open>
  \<open>column == list\<close> on a numeric column: pandas makes the list an array and compares
  element by element. A list of another length than the column is an error. A list with
  a string and without \<open>None\<close> becomes an array of strings, which no number equals;
  otherwise an element equals a cell when both are the same number.
\<close>

fun is_str :: "scalar \<Rightarrow> bool" where
  "is_str (PStr s) = True"
| "is_str v = False"

fun same_number :: "scalar \<Rightarrow> scalar \<Rightarrow> bool" where
  "same_number (PInt m) (PInt n) = (m = n)"
| "same_number x v = False"

definition array_eq :: "scalar list \<Rightarrow> scalar list \<Rightarrow> error + bool list" where
  "array_eq xs vs =
     (if length xs \<noteq> length vs then Inl LengthsMismatch
      else if list_ex is_str vs \<and> PNone \<notin> set vs then Inr (map (\<lambda>x. False) xs)
      else Inr (map2 same_number xs vs))"

definition from_library :: "string + bool list \<Rightarrow> error + bool list" where
  "from_library r = (case r of Inl name \<Rightarrow> Inl (CompareError name) | Inr m \<Rightarrow> Inr m)"

text \<open>
  \<open>column == value\<close>. On a column that is not numeric a tuple is compared with each cell
  as one value, and no cell is a tuple.
\<close>

fun series_eq :: "library \<Rightarrow> dtype \<Rightarrow> scalar list \<Rightarrow> pyvalue \<Rightarrow> error + bool list" where
  "series_eq lib dt xs (Scalar v) = Inr (scalar_eq xs v)"
| "series_eq lib Numeric xs (PyList vs) = array_eq xs vs"
| "series_eq lib Object xs (PyTuple vs) = Inr (map (\<lambda>x. False) xs)"
| "series_eq lib dt xs v = from_library (cmp_listlike lib Eq dt xs v)"

text \<open>\<open>column >= value\<close> and \<open>column <= value\<close> on a numeric column.\<close>

fun series_order :: "library \<Rightarrow> cmp_op \<Rightarrow> scalar list \<Rightarrow> pyvalue \<Rightarrow> error + bool list" where
  "series_order lib opr xs (Scalar v) = scalar_order opr xs v"
| "series_order lib opr xs v = from_library (cmp_listlike lib opr Numeric xs v)"

text \<open>\<open>column.isin(vs)\<close>.\<close>

definition series_isin :: "scalar list \<Rightarrow> scalar list \<Rightarrow> bool list" where
  "series_isin xs vs = map (\<lambda>x. x \<in> set vs) xs"

section \<open>Regular expressions\<close>

text \<open>
  The patterns modelled: ordinary characters, \<open>.\<close> (any character but a newline), \<open>^\<close>
  (the start of the string) and a backslash before a character that is no ASCII letter
  or digit (that character, literally).
\<close>

datatype atom = Lit char | AnyChar | Bol

definition backslash :: char where
  "backslash = CHR 0x5C"

definition newline :: char where
  "newline = CHR 0x0A"

definition is_alnum :: "char \<Rightarrow> bool" where
  "is_alnum c =
     (let n = (of_char c :: nat)
      in (48 \<le> n \<and> n \<le> 57) \<or> (65 \<le> n \<and> n \<le> 90) \<or> (97 \<le> n \<and> n \<le> 122))"

definition is_ascii :: "char \<Rightarrow> bool" where
  "is_ascii c = ((of_char c :: nat) < 128)"

text \<open>The lower case of an ASCII letter.\<close>

definition to_lower :: "char \<Rightarrow> char" where
  "to_lower c =
     (let n = (of_char c :: nat)
      in if 65 \<le> n \<and> n \<le> 90 then char_of (n + 32) else c)"

text \<open>The characters with a meaning of their own in a pattern.\<close>

definition pattern_special :: "char list" where
  "pattern_special =
     [CHR ''.'', CHR ''^'', CHR ''$'', CHR ''*'', CHR ''+'', CHR ''?'', CHR ''{'', CHR ''}'',
      CHR ''['', CHR '']'', CHR 0x5C, CHR ''|'', CHR ''('', CHR '')'']"

fun parse_pattern :: "string \<Rightarrow> atom list option" where
  "parse_pattern [] = Some []"
| "parse_pattern (c # cs) =
     (if c = backslash then
        (case cs of
           [] \<Rightarrow> None
         | d # ds \<Rightarrow> if is_alnum d then None else map_option (Cons (Lit d)) (parse_pattern ds))
      else if c = CHR ''.'' then map_option (Cons AnyChar) (parse_pattern cs)
      else if c = CHR ''^'' then map_option (Cons Bol) (parse_pattern cs)
      else if c \<in> set pattern_special then None
      else map_option (Cons (Lit c)) (parse_pattern cs))"

text \<open>
  A character \<open>c\<close> of the pattern against a character \<open>x\<close> of the string. Under
  \<open>re.IGNORECASE\<close> two ASCII characters are the same when their lower cases are; when
  one of them is not ASCII the library decides.
\<close>

definition char_eq :: "library \<Rightarrow> bool \<Rightarrow> char \<Rightarrow> char \<Rightarrow> bool" where
  "char_eq lib ignorecase c x =
     (if ignorecase then
        (if is_ascii c \<and> is_ascii x then to_lower c = to_lower x else ignorecase_other lib c x)
      else c = x)"

text \<open>
  \<open>match_here lib ignorecase start atoms s\<close>: the atoms match a prefix of \<open>s\<close>, where
  \<open>start\<close> says that \<open>s\<close> is the whole string.
\<close>

fun match_here :: "library \<Rightarrow> bool \<Rightarrow> bool \<Rightarrow> atom list \<Rightarrow> string \<Rightarrow> bool" where
  "match_here lib ic start [] s = True"
| "match_here lib ic start (Bol # ats) s = (start \<and> match_here lib ic start ats s)"
| "match_here lib ic start (Lit c # ats) [] = False"
| "match_here lib ic start (Lit c # ats) (x # s) =
     (char_eq lib ic c x \<and> match_here lib ic False ats s)"
| "match_here lib ic start (AnyChar # ats) [] = False"
| "match_here lib ic start (AnyChar # ats) (x # s) =
     (x \<noteq> newline \<and> match_here lib ic False ats s)"

fun search_from :: "library \<Rightarrow> bool \<Rightarrow> bool \<Rightarrow> atom list \<Rightarrow> string \<Rightarrow> bool" where
  "search_from lib ic start ats [] = match_here lib ic start ats []"
| "search_from lib ic start ats (x # s) =
     (match_here lib ic start ats (x # s) \<or> search_from lib ic False ats s)"

definition re_compile :: "library \<Rightarrow> string \<Rightarrow> bool \<Rightarrow> string + regex" where
  "re_compile lib pat ignorecase =
     (case parse_pattern pat of
        Some ats \<Rightarrow>
          Inr (Regex (search_from lib ignorecase True ats) (match_here lib ignorecase True ats))
      | None \<Rightarrow> re_compile_other lib pat ignorecase)"

text \<open>\<open>re.escape\<close>: a backslash before each of its special characters.\<close>

definition escape_special :: "char list" where
  "escape_special =
     [CHR ''('', CHR '')'', CHR ''['', CHR '']'', CHR ''{'', CHR ''}'', CHR ''?'', CHR ''*'',
      CHR ''+'', CHR ''-'', CHR ''|'', CHR ''^'', CHR ''$'', CHR 0x5C, CHR ''.'', CHR ''&'',
      CHR ''~'', CHR ''#'', CHR '' '', CHR 0x09, CHR 0x0A, CHR 0x0D, CHR 0x0B, CHR 0x0C]"

definition re_escape :: "string \<Rightarrow> string" where
  "re_escape text = concat (map (\<lambda>c. if c \<in> set escape_special then [backslash, c] else [c]) text)"

subsection \<open>The \<open>.str\<close> accessor\<close>

text \<open>
  \<open>column.str\<close> raises \<open>AttributeError\<close> on a numeric column, and on an object column whose
  values that are not missing are all integers. \<open>str.contains\<close> and \<open>str.match\<close> compile
  the pattern once and test each cell; with \<open>na=False\<close> a cell that is no string is false.
\<close>

fun is_int :: "scalar \<Rightarrow> bool" where
  "is_int (PInt n) = True"
| "is_int v = False"

definition str_accessor_ok :: "series \<Rightarrow> bool" where
  "str_accessor_ok col =
     (fst col = Object \<and>
      (let present = filter (\<lambda>x. \<not> isna x) (snd col)
       in present = [] \<or> \<not> list_all is_int present))"

fun test_cell :: "(string \<Rightarrow> bool) \<Rightarrow> scalar \<Rightarrow> bool" where
  "test_cell f (PStr s) = f s"
| "test_cell f v = False"

definition str_contains :: "library \<Rightarrow> series \<Rightarrow> string \<Rightarrow> bool \<Rightarrow> error + bool list" where
  "str_contains lib col pat case_flag =
     (if \<not> str_accessor_ok col then Inl AttributeError
      else case re_compile lib pat (\<not> case_flag) of
             Inl name \<Rightarrow> Inl (CompileError name)
           | Inr re \<Rightarrow> Inr (map (test_cell (re_search re)) (snd col)))"

definition str_match :: "library \<Rightarrow> series \<Rightarrow> string \<Rightarrow> bool \<Rightarrow> error + bool list" where
  "str_match lib col pat case_flag =
     (if \<not> str_accessor_ok col then Inl AttributeError
      else case re_compile lib pat (\<not> case_flag) of
             Inl name \<Rightarrow> Inl (CompileError name)
           | Inr re \<Rightarrow> Inr (map (test_cell (re_match re)) (snd col)))"

section \<open>The column filters\<close>

text \<open>
  \<open>parse_range\<close> is defined twice, with the same body, in \<open>filter_subset\<close> and in
  \<open>search_text_matches\<close>. An integer and a float are the two numeric scalars; a string
  and a list fall through to the last line.
\<close>

fun parse_range :: "pyvalue \<Rightarrow> pyvalue \<times> pyvalue" where
  "parse_range (Scalar PNone) = (Scalar PNone, Scalar PNone)"
| "parse_range (Scalar (PInt n)) = (Scalar (PInt n), Scalar (PInt n))"
| "parse_range (Scalar PNaN) = (Scalar PNaN, Scalar PNaN)"
| "parse_range (PyTuple []) = (Scalar PNone, Scalar PNone)"
| "parse_range (PyTuple [a]) = (Scalar a, Scalar PNone)"
| "parse_range (PyTuple (a # b # rest)) = (Scalar a, Scalar b)"
| "parse_range range_input = (range_input, range_input)"

text \<open>Python's \<open>==\<close> on the two values \<open>parse_range\<close> returns: NaN differs from itself.\<close>

definition py_eq :: "pyvalue \<Rightarrow> pyvalue \<Rightarrow> bool" where
  "py_eq a b = (a = b \<and> a \<noteq> Scalar PNaN)"

definition is_not_None :: "pyvalue \<Rightarrow> bool" where
  "is_not_None v = (v \<noteq> Scalar PNone)"

definition masked :: "DataFrame \<Rightarrow> error + bool list \<Rightarrow> error + DataFrame" where
  "masked d r = (case r of Inl e \<Rightarrow> Inl e | Inr keep \<Rightarrow> Inr (select_rows keep d))"

text \<open>
  The body of the loop over the keyword arguments, after the test that the column
  exists: the same lines in both functions (get_random.py 92-115, search.py 109-132).
  \<open>dt\<close> is the dtype of \<open>df[key]\<close>.
\<close>

definition apply_filter :: "library \<Rightarrow> dtype \<Rightarrow> DataFrame \<Rightarrow> string \<Rightarrow> pyvalue \<Rightarrow> error + DataFrame" where
  "apply_filter lib dt filtered_df key val =
     (case dt of
        Numeric \<Rightarrow>
          (case parse_range val of (min_val, max_val) \<Rightarrow>
             if is_not_None min_val \<and> is_not_None max_val \<and> py_eq min_val max_val then
               masked filtered_df
                 (series_eq lib Numeric (column_values Numeric key filtered_df) min_val)
             else
               (case (if is_not_None min_val
                      then masked filtered_df
                             (series_order lib Ge (column_values Numeric key filtered_df) min_val)
                      else Inr filtered_df) of
                  Inl e \<Rightarrow> Inl e
                | Inr filtered_df1 \<Rightarrow>
                    if is_not_None max_val
                    then masked filtered_df1
                           (series_order lib Le (column_values Numeric key filtered_df1) max_val)
                    else Inr filtered_df1))
      | Object \<Rightarrow>
          (case val of
             PyList vs \<Rightarrow>
               Inr (select_rows (series_isin (column_values Object key filtered_df) vs) filtered_df)
           | _ \<Rightarrow>
               masked filtered_df
                 (series_eq lib Object (column_values Object key filtered_df) val)))"

text \<open>The local variables of both functions: the argument and the working copy.\<close>

record env =
  env_df :: DataFrame
  env_filtered :: DataFrame

section \<open>\<open>filter_subset\<close> (get_random.py)\<close>

text \<open>The loop of lines 87-115: a key that is no column of \<open>df\<close> is skipped.\<close>

fun sampler_loop :: "library \<Rightarrow> env \<Rightarrow> (string \<times> pyvalue) list \<Rightarrow> error + env" where
  "sampler_loop lib s [] = Inr s"
| "sampler_loop lib s ((key, val) # kwargs) =
     (case dtype_of (env_df s) key of
        None \<Rightarrow> sampler_loop lib s kwargs
      | Some dt \<Rightarrow>
          (case apply_filter lib dt (env_filtered s) key val of
             Inl e \<Rightarrow> Inl e
           | Inr f \<Rightarrow> sampler_loop lib (s\<lparr>env_filtered := f\<rparr>) kwargs))"

text \<open>Lines 83-115: the copy, then the loop.\<close>

definition sampler_filter :: "library \<Rightarrow> DataFrame \<Rightarrow> (string \<times> pyvalue) list \<Rightarrow> error + env" where
  "sampler_filter lib d kwargs = sampler_loop lib \<lparr>env_df = d, env_filtered = d\<rparr> kwargs"

definition filter_subset ::
  "library \<Rightarrow> (nat \<Rightarrow> nat) \<Rightarrow> DataFrame \<Rightarrow> bool \<Rightarrow> string \<Rightarrow> (string \<times> pyvalue) list \<Rightarrow> error + result" where
  "filter_subset lib rnd d return_all conv_id_colname kwargs =
     (case sampler_filter lib d kwargs of
        Inl e \<Rightarrow> Inl e
      | Inr s \<Rightarrow>
          if df_empty (env_filtered s) then Inr ReturnNone
          else
            if return_all then
              (case getitem (env_filtered s) conv_id_colname of
                 Inl e \<Rightarrow> Inl e
               | Inr ids \<Rightarrow> Inr (Keys (unique (snd ids))))
            else
              (case getitem (env_filtered s) conv_id_colname of
                 Inl e \<Rightarrow> Inl e
               | Inr ids \<Rightarrow>
                   (case random_choice rnd (unique (snd ids)) of
                      Inl e \<Rightarrow> Inl e
                    | Inr k \<Rightarrow> Inr (Key k))))"

section \<open>\<open>search_text_matches\<close> (search.py)\<close>

definition required_columns :: "string list" where
  "required_columns = [''message'', ''conv_id'', ''turn_num'']"

text \<open>Lines 85-100: the four branches of the text search.\<close>

definition text_match :: "library \<Rightarrow> DataFrame \<Rightarrow> string \<Rightarrow> bool \<Rightarrow> bool \<Rightarrow> error + DataFrame" where
  "text_match lib filtered_df text case_sensitive from_start =
     (case getitem filtered_df ''message'' of
        Inl e \<Rightarrow> Inl e
      | Inr messages \<Rightarrow>
          if from_start then
            (if case_sensitive then
               (let pattern = CHR ''^'' # re_escape text
                in masked filtered_df (str_match lib messages pattern True))
             else
               (let pattern = CHR ''^'' # re_escape text
                in masked filtered_df (str_match lib messages pattern False)))
          else
            (if case_sensitive then
               masked filtered_df (str_contains lib messages text True)
             else
               masked filtered_df (str_contains lib messages text False)))"

definition warning :: "string \<Rightarrow> string" where
  "warning key =
     ''Column '' @ [CHR 0x27] @ key @ [CHR 0x27] @
     '' not found in DataFrame. This filter will be ignored.''"

text \<open>
  The loop of lines 103-132, with the warnings it emits: a key that is no column of \<open>df\<close>
  is skipped with a warning.
\<close>

fun search_loop :: "library \<Rightarrow> env \<Rightarrow> (string \<times> pyvalue) list \<Rightarrow> string list \<times> (error + env)" where
  "search_loop lib s [] = ([], Inr s)"
| "search_loop lib s ((key, val) # kwargs) =
     (case dtype_of (env_df s) key of
        None \<Rightarrow>
          (case search_loop lib s kwargs of (ws, r) \<Rightarrow> (warning key # ws, r))
      | Some dt \<Rightarrow>
          (case apply_filter lib dt (env_filtered s) key val of
             Inl e \<Rightarrow> ([], Inl e)
           | Inr f \<Rightarrow> search_loop lib (s\<lparr>env_filtered := f\<rparr>) kwargs))"

text \<open>Lines 81-132: the rows that pass the text search and the column filters.\<close>

definition search_filter ::
  "library \<Rightarrow> DataFrame \<Rightarrow> string \<Rightarrow> bool \<Rightarrow> bool \<Rightarrow> (string \<times> pyvalue) list \<Rightarrow> string list \<times> (error + env)" where
  "search_filter lib d text case_sensitive from_start kwargs =
     (case text_match lib d text case_sensitive from_start of
        Inl e \<Rightarrow> ([], Inl e)
      | Inr f \<Rightarrow> search_loop lib \<lparr>env_df = d, env_filtered = f\<rparr> kwargs)"

text \<open>Lines 139-152, on the rows that are left.\<close>

definition search_return :: "library \<Rightarrow> (nat \<Rightarrow> nat) \<Rightarrow> DataFrame \<Rightarrow> bool \<Rightarrow> error + result" where
  "search_return lib rnd filtered_df return_all =
     (case getitem filtered_df ''conv_id'' of
        Inl e \<Rightarrow> Inl e
      | Inr ids \<Rightarrow>
          (let unique_convs = unique (snd ids) in
           if return_all then Inr (Keys unique_convs)
           else
             (case random_choice rnd unique_convs of
                Inl e \<Rightarrow> Inl e
              | Inr random_conv \<Rightarrow>
                  (case masked filtered_df
                          (series_eq lib (fst ids) (snd ids) (Scalar random_conv)) of
                     Inl e \<Rightarrow> Inl e
                   | Inr conv_rows \<Rightarrow>
                       (case getitem conv_rows ''turn_num'' of
                          Inl e \<Rightarrow> Inl e
                        | Inr matching_turns \<Rightarrow>
                            Inr (KeyTurns random_conv (snd matching_turns)))))))"

definition search_text_matches ::
  "library \<Rightarrow> (nat \<Rightarrow> nat) \<Rightarrow> DataFrame \<Rightarrow> string \<Rightarrow> bool \<Rightarrow> bool \<Rightarrow> bool \<Rightarrow>
   (string \<times> pyvalue) list \<Rightarrow> string list \<times> (error + result)" where
  "search_text_matches lib rnd d text case_sensitive from_start return_all kwargs =
     (if \<not> list_all (in_columns d) required_columns then ([], Inl (ValueError required_columns))
      else
        (case search_filter lib d text case_sensitive from_start kwargs of
           (ws, Inl e) \<Rightarrow> (ws, Inl e)
         | (ws, Inr s) \<Rightarrow>
             if df_empty (env_filtered s) then (ws, Inr ReturnNone)
             else (ws, search_return lib rnd (env_filtered s) return_all)))"

section \<open>Example inputs\<close>

text \<open>
  A library that raises in what is left to it and folds no letter beyond ASCII, and a
  random source that draws 0.
\<close>

definition lib0 :: library where
  "lib0 =
     \<lparr>cmp_listlike = (\<lambda>opr dt xs v. Inl ''TypeError''),
      re_compile_other = (\<lambda>pat ignorecase. Inl ''re.error''),
      ignorecase_other = (\<lambda>c x. c = x)\<rparr>"

definition rnd0 :: "nat \<Rightarrow> nat" where
  "rnd0 n = 0"

definition chat_columns :: "(string \<times> dtype) list" where
  "chat_columns =
     [(''conv_id'', Object), (''turn_num'', Numeric), (''role'', Object),
      (''message'', Object), (''turns'', Numeric)]"

definition chat_row :: "nat \<Rightarrow> scalar \<Rightarrow> int \<Rightarrow> scalar \<Rightarrow> scalar \<Rightarrow> int \<Rightarrow> row" where
  "chat_row i conv n role msg turns =
     (i, [(''conv_id'', conv), (''turn_num'', PInt n), (''role'', role),
          (''message'', msg), (''turns'', PInt turns)])"

definition chat_table :: DataFrame where
  "chat_table =
     \<lparr>columns = chat_columns,
      rows = [chat_row 0 (PStr ''a'') 0 (PStr ''user'') (PStr ''Hi there'') 3,
              chat_row 1 (PStr ''a'') 1 (PStr ''assistant'') (PStr ''oh Hi'') 3,
              chat_row 2 (PStr ''b'') 0 (PStr ''user'') (PStr ''hi there'') 10,
              chat_row 3 (PStr ''b'') 1 PNone (PStr ''abc'') 10]\<rparr>"

text \<open>A table whose only row has no conversation id and no role.\<close>

definition null_table :: DataFrame where
  "null_table = \<lparr>columns = chat_columns, rows = [chat_row 0 PNone 1 PNone (PStr ''hi'') 1]\<rparr>"

text \<open>A table with the column \<open>message\<close> only.\<close>

definition message_only_table :: DataFrame where
  "message_only_table =
     \<lparr>columns = [(''message'', Object)], rows = [(0, [(''message'', PStr ''hi'')])]\<rparr>"

section \<open>Regular expressions: the escaped pattern is the literal text\<close>

lemma escape_special_not_alnum: "c \<in> set escape_special \<Longrightarrow> \<not> is_alnum c"
  by (auto simp: escape_special_def is_alnum_def)

lemma not_escape_special_ordinary:
  "c \<notin> set escape_special \<Longrightarrow>
     c \<noteq> backslash \<and> c \<noteq> CHR ''.'' \<and> c \<noteq> CHR ''^'' \<and> c \<notin> set pattern_special"
  by (auto simp: escape_special_def pattern_special_def backslash_def)

lemma parse_pattern_re_escape: "parse_pattern (re_escape t) = Some (map Lit t)"
proof (induction t)
  case Nil
  show ?case by (simp add: re_escape_def)
next
  case (Cons c cs)
  have step: "re_escape (c # cs) = (if c \<in> set escape_special then [backslash, c] else [c]) @ re_escape cs"
    by (simp add: re_escape_def)
  show ?case
  proof (cases "c \<in> set escape_special")
    case True
    then show ?thesis
      using Cons.IH escape_special_not_alnum [OF True] by (simp add: step)
  next
    case False
    then show ?thesis
      using Cons.IH not_escape_special_ordinary [OF False] by (simp add: step)
  qed
qed

lemma parse_pattern_anchored:
  "parse_pattern (CHR ''^'' # re_escape t) = Some (Bol # map Lit t)"
  by (simp add: parse_pattern_re_escape backslash_def)

lemma match_here_literal:
  "match_here lib ic start (map Lit t) s =
     (length t \<le> length s \<and> list_all2 (char_eq lib ic) t (take (length t) s))"
proof (induction t arbitrary: s start)
  case Nil
  show ?case by simp
next
  case (Cons c cs)
  show ?case
  proof (cases s)
    case Nil
    then show ?thesis by simp
  next
    case (Cons x xs)
    then show ?thesis by (auto simp: Cons.IH)
  qed
qed

lemma char_eq_ascii:
  "is_ascii c \<Longrightarrow> is_ascii x \<Longrightarrow> char_eq lib True c x = (to_lower c = to_lower x)"
  by (simp add: char_eq_def)

lemma literal_prefix:
  "(length t \<le> length s \<and> list_all2 (char_eq lib False) t (take (length t) s)) = prefix t s"
proof (induction t arbitrary: s)
  case Nil
  show ?case by simp
next
  case (Cons c cs)
  show ?case
  proof (cases s)
    case Nil
    then show ?thesis by simp
  next
    case (Cons x xs)
    then show ?thesis using Cons.IH [of xs] by (auto simp: char_eq_def)
  qed
qed

lemma ascii_prefix:
  "list_all is_ascii t \<Longrightarrow> list_all is_ascii s \<Longrightarrow>
     (length t \<le> length s \<and> list_all2 (char_eq lib True) t (take (length t) s)) =
       prefix (map to_lower t) (map to_lower s)"
proof (induction t arbitrary: s)
  case Nil
  show ?case by simp
next
  case (Cons c cs)
  show ?case
  proof (cases s)
    case Nil
    then show ?thesis by simp
  next
    case (Cons x xs)
    then show ?thesis using Cons.prems Cons.IH [of xs] by (auto simp: char_eq_ascii)
  qed
qed

section \<open>Selecting rows\<close>

lemma select_rows_map:
  "select_rows (map p (column_values dt key d)) d =
     d\<lparr>rows := filter (\<lambda>r. p (as_dtype dt (cell r key))) (rows d)\<rparr>"
proof -
  have "map snd (filter fst (zip (map g xs) xs)) = filter g xs" for g :: "row \<Rightarrow> bool" and xs
    by (induction xs) auto
  from this [of "\<lambda>r. p (as_dtype dt (cell r key))" "rows d"]
  show ?thesis by (simp add: select_rows_def column_values_def comp_def)
qed

lemma test_cell_PStr: "test_cell f v = (case v of PStr s \<Rightarrow> f s | _ \<Rightarrow> False)"
  by (cases v) auto

section \<open>The text search from the start of the message\<close>

text \<open>
  C3. With \<open>from_start\<close> set, the text search keeps exactly the rows whose message is a
  string that begins with the text, taken literally: the message column is an object
  column, so a cell is read as it is. With \<open>case_sensitive\<close> the characters are compared
  as they are. Without it the message must be as long as the text and, character by
  character, the same as the text under \<open>re.IGNORECASE\<close>; for an ASCII text and an ASCII
  message this says that the lower case of the message begins with the lower case of the
  text. A table without a message column is a \<open>KeyError\<close> and a message column without
  string values an \<open>AttributeError\<close>.
\<close>

theorem text_match_from_start:
  "text_match lib d t case_sensitive True =
     (case getitem d ''message'' of
        Inl e \<Rightarrow> Inl e
      | Inr messages \<Rightarrow>
          if str_accessor_ok messages then
            Inr (d\<lparr>rows :=
                   filter (\<lambda>r. case cell r ''message'' of
                                 PStr s \<Rightarrow>
                                   if case_sensitive then prefix t s
                                   else length t \<le> length s \<and>
                                        list_all2 (char_eq lib True) t (take (length t) s)
                               | _ \<Rightarrow> False)
                     (rows d)\<rparr>)
          else Inl AttributeError) \<and>
   (list_all is_ascii t \<and> list_all is_ascii s \<longrightarrow>
      (length t \<le> length s \<and> list_all2 (char_eq lib True) t (take (length t) s)) =
        prefix (map to_lower t) (map to_lower s))"
proof -
  have run: "text_match lib d t case_sensitive True =
     (case getitem d ''message'' of
        Inl e \<Rightarrow> Inl e
      | Inr messages \<Rightarrow>
          if str_accessor_ok messages then
            Inr (d\<lparr>rows :=
                   filter (\<lambda>r. case cell r ''message'' of
                                 PStr s \<Rightarrow>
                                   if case_sensitive then prefix t s
                                   else length t \<le> length s \<and>
                                        list_all2 (char_eq lib True) t (take (length t) s)
                               | _ \<Rightarrow> False)
                     (rows d)\<rparr>)
          else Inl AttributeError)"
  proof (cases "dtype_of d ''message''")
    case None
    then show ?thesis by (simp add: text_match_def getitem_def)
  next
    case (Some dt)
    show ?thesis
    proof (cases "str_accessor_ok (dt, column_values dt ''message'' d)")
      case False
      then show ?thesis
        using Some by (simp add: text_match_def getitem_def str_match_def masked_def)
    next
      case True
      then have dt: "dt = Object" by (simp add: str_accessor_ok_def)
      have re: "re_compile lib (CHR ''^'' # re_escape t) ic =
                  Inr (Regex (search_from lib ic True (Bol # map Lit t))
                         (match_here lib ic True (Bol # map Lit t)))" for ic
        unfolding re_compile_def parse_pattern_anchored by simp
      show ?thesis
        using Some True
        by (cases case_sensitive)
           (simp_all add: text_match_def getitem_def str_match_def masked_def re dt
              select_rows_map test_cell_PStr match_here_literal literal_prefix
              cong: scalar.case_cong)
    qed
  qed
  from run ascii_prefix [of t s lib] show ?thesis by blast
qed

text \<open>
  The text \<open>Hi\<close> keeps \<open>Hi there\<close> and drops \<open>oh Hi\<close>; without case sensitivity it keeps
  \<open>hi there\<close> too.
\<close>

theorem text_match_from_start_witness:
  "list_all is_ascii ''Hi'' \<and> list_all is_ascii ''hi there'' \<and>
   prefix (map to_lower ''Hi'') (map to_lower ''hi there'') \<and>
   text_match lib0 chat_table ''Hi'' True True =
     Inr (chat_table\<lparr>rows := [chat_row 0 (PStr ''a'') 0 (PStr ''user'') (PStr ''Hi there'') 3]\<rparr>) \<and>
   text_match lib0 chat_table ''Hi'' False True =
     Inr (chat_table\<lparr>rows := [chat_row 0 (PStr ''a'') 0 (PStr ''user'') (PStr ''Hi there'') 3,
                              chat_row 2 (PStr ''b'') 0 (PStr ''user'') (PStr ''hi there'') 10]\<rparr>)"
proof -
  have ascii: "list_all is_ascii ''Hi''" "list_all is_ascii ''hi there''"
    by code_simp+
  have lowered: "prefix (map to_lower ''Hi'') (map to_lower ''hi there'')"
    by code_simp
  from text_match_from_start [where lib = lib0 and d = chat_table and t = "''Hi''"
         and case_sensitive = True]
  have a: "text_match lib0 chat_table ''Hi'' True True =
     (case getitem chat_table ''message'' of
        Inl e \<Rightarrow> Inl e
      | Inr messages \<Rightarrow>
          if str_accessor_ok messages then
            Inr (chat_table\<lparr>rows :=
                   filter (\<lambda>r. case cell r ''message'' of
                                 PStr s \<Rightarrow>
                                   if True then prefix ''Hi'' s
                                   else length ''Hi'' \<le> length s \<and>
                                        list_all2 (char_eq lib0 True) ''Hi'' (take (length ''Hi'') s)
                               | _ \<Rightarrow> False)
                     (rows chat_table)\<rparr>)
          else Inl AttributeError)"
    by blast
  from text_match_from_start [where lib = lib0 and d = chat_table and t = "''Hi''"
         and case_sensitive = False and s = "''hi there''"] ascii
  have b: "text_match lib0 chat_table ''Hi'' False True =
     (case getitem chat_table ''message'' of
        Inl e \<Rightarrow> Inl e
      | Inr messages \<Rightarrow>
          if str_accessor_ok messages then
            Inr (chat_table\<lparr>rows :=
                   filter (\<lambda>r. case cell r ''message'' of
                                 PStr s \<Rightarrow>
                                   if False then prefix ''Hi'' s
                                   else length ''Hi'' \<le> length s \<and>
                                        list_all2 (char_eq lib0 True) ''Hi'' (take (length ''Hi'') s)
                               | _ \<Rightarrow> False)
                     (rows chat_table)\<rparr>)
          else Inl AttributeError)"
    by blast
  have a': "text_match lib0 chat_table ''Hi'' True True =
     Inr (chat_table\<lparr>rows := [chat_row 0 (PStr ''a'') 0 (PStr ''user'') (PStr ''Hi there'') 3]\<rparr>)"
    unfolding a by code_simp
  have b': "text_match lib0 chat_table ''Hi'' False True =
     Inr (chat_table\<lparr>rows := [chat_row 0 (PStr ''a'') 0 (PStr ''user'') (PStr ''Hi there'') 3,
                              chat_row 2 (PStr ''b'') 0 (PStr ''user'') (PStr ''hi there'') 10]\<rparr>)"
    unfolding b by code_simp
  from ascii lowered a' b' show ?thesis by blast
qed

section \<open>Rows selected by a mask\<close>

lemma subseq_select: "subseq (map snd (filter fst (zip keep xs))) xs"
proof (induction xs arbitrary: keep)
  case Nil
  show ?case by simp
next
  case (Cons x xs)
  show ?case
  proof (cases keep)
    case Nil
    then show ?thesis by simp
  next
    case (Cons b bs)
    then show ?thesis using Cons.IH [of bs] by (cases b) (auto intro: list_emb.intros)
  qed
qed

lemma select_rows_subseq: "subseq (rows (select_rows keep d)) (rows d)"
  by (simp add: select_rows_def subseq_select)

lemma select_rows_columns: "columns (select_rows keep d) = columns d"
  by (simp add: select_rows_def)

lemma masked_Inr:
  "masked d r = Inr f \<Longrightarrow> columns f = columns d \<and> subseq (rows f) (rows d)"
  by (auto simp: masked_def select_rows_subseq select_rows_columns split: sum.splits)

lemma apply_filter_Inr:
  assumes "apply_filter lib dt d key val = Inr f"
  shows "columns f = columns d \<and> subseq (rows f) (rows d)"
proof (cases dt)
  case Object
  show ?thesis
  proof (cases val)
    case (PyList vs)
    then show ?thesis
      using assms Object by (auto simp: apply_filter_def select_rows_subseq select_rows_columns)
  next
    case (Scalar v)
    then show ?thesis
      using assms Object masked_Inr by (auto simp: apply_filter_def)
  next
    case (PyTuple vs)
    then show ?thesis
      using assms Object masked_Inr by (auto simp: apply_filter_def)
  qed
next
  case Numeric
  obtain lo hi where pr: "parse_range val = (lo, hi)" by (cases "parse_range val")
  show ?thesis
  proof (cases "is_not_None lo \<and> is_not_None hi \<and> py_eq lo hi")
    case True
    then show ?thesis
      using assms Numeric pr masked_Inr by (auto simp: apply_filter_def)
  next
    case False
    from assms Numeric pr False obtain f1 where
      f1: "(if is_not_None lo
            then masked d (series_order lib Ge (column_values Numeric key d) lo)
            else Inr d) = Inr f1"
      and f: "(if is_not_None hi
               then masked f1 (series_order lib Le (column_values Numeric key f1) hi)
               else Inr f1) = Inr f"
      by (auto simp: apply_filter_def split: sum.splits if_splits)
    from f1 have a: "columns f1 = columns d \<and> subseq (rows f1) (rows d)"
      using masked_Inr by (auto split: if_splits)
    from f have b: "columns f = columns f1 \<and> subseq (rows f) (rows f1)"
      using masked_Inr by (auto split: if_splits)
    from a b show ?thesis using subseq_order.trans by auto
  qed
qed

section \<open>The filters of \<open>filter_subset\<close> keep rows of the input\<close>

lemma sampler_loop_Inr:
  "sampler_loop lib s kwargs = Inr s' \<Longrightarrow>
     env_df s' = env_df s \<and>
     columns (env_filtered s') = columns (env_filtered s) \<and>
     subseq (rows (env_filtered s')) (rows (env_filtered s))"
proof (induction kwargs arbitrary: s)
  case Nil
  then show ?case by simp
next
  case (Cons kv kwargs)
  obtain key val where kv: "kv = (key, val)" by (cases kv)
  show ?case
  proof (cases "dtype_of (env_df s) key")
    case None
    then show ?thesis using Cons kv by simp
  next
    case (Some dt)
    with Cons.prems kv obtain f where
      f: "apply_filter lib dt (env_filtered s) key val = Inr f"
      and rest: "sampler_loop lib (s\<lparr>env_filtered := f\<rparr>) kwargs = Inr s'"
      by (auto split: sum.splits)
    from Cons.IH [OF rest] apply_filter_Inr [OF f]
    show ?thesis using subseq_order.trans by auto
  qed
qed

text \<open>
  C4. The filters of \<open>filter_subset\<close> leave the argument as it was: when they return,
  the variable \<open>df\<close> still holds the input table, the working copy has the columns of
  the input, and its rows are rows of the input in the input's order (a subsequence of
  them, each row with its index label). With no filter the working copy is the input
  table itself.
\<close>

theorem sampler_filter_subset_of_input:
  "(sampler_filter lib d kwargs = Inr s \<longrightarrow>
      env_df s = d \<and>
      columns (env_filtered s) = columns d \<and>
      subseq (rows (env_filtered s)) (rows d)) \<and>
   sampler_filter lib d [] = Inr \<lparr>env_df = d, env_filtered = d\<rparr>"
proof -
  have "env_df s = d \<and> columns (env_filtered s) = columns d \<and>
        subseq (rows (env_filtered s)) (rows d)"
    if "sampler_filter lib d kwargs = Inr s"
    using sampler_loop_Inr [of lib "\<lparr>env_df = d, env_filtered = d\<rparr>" kwargs s] that
    by (simp add: sampler_filter_def)
  then show ?thesis by (simp add: sampler_filter_def)
qed

text \<open>
  On the example table, \<open>turns=(5, None)\<close> keeps the rows 2 and 3, in that order.
\<close>

theorem sampler_filter_subset_of_input_witness:
  "sampler_filter lib0 chat_table [(''turns'', PyTuple [PInt 5, PNone])] =
     Inr \<lparr>env_df = chat_table,
          env_filtered =
            chat_table\<lparr>rows := [chat_row 2 (PStr ''b'') 0 (PStr ''user'') (PStr ''hi there'') 10,
                                chat_row 3 (PStr ''b'') 1 PNone (PStr ''abc'') 10]\<rparr>\<rparr> \<and>
   subseq [chat_row 2 (PStr ''b'') 0 (PStr ''user'') (PStr ''hi there'') 10,
           chat_row 3 (PStr ''b'') 1 PNone (PStr ''abc'') 10]
     (rows chat_table) \<and>
   sampler_filter lib0 chat_table [] = Inr \<lparr>env_df = chat_table, env_filtered = chat_table\<rparr>"
proof -
  let ?kept = "[chat_row 2 (PStr ''b'') 0 (PStr ''user'') (PStr ''hi there'') 10,
                chat_row 3 (PStr ''b'') 1 PNone (PStr ''abc'') 10]"
  let ?s = "\<lparr>env_df = chat_table, env_filtered = chat_table\<lparr>rows := ?kept\<rparr>\<rparr>"
  have run: "sampler_filter lib0 chat_table [(''turns'', PyTuple [PInt 5, PNone])] = Inr ?s"
    by code_simp
  from run
    sampler_filter_subset_of_input
      [where lib = lib0 and d = chat_table and kwargs = "[(''turns'', PyTuple [PInt 5, PNone])]"
         and s = ?s]
  show ?thesis by simp
qed

section \<open>Equivalent filters on a numeric column\<close>

lemma sampler_loop_same_entry:
  assumes "\<And>f. apply_filter lib dt f key a = apply_filter lib dt f key b"
    and "dtype_of (env_df s) key = Some dt"
  shows "sampler_loop lib s (before @ (key, a) # after) =
         sampler_loop lib s (before @ (key, b) # after)"
  using assms(2)
proof (induction before arbitrary: s)
  case Nil
  then show ?case by (simp add: assms(1))
next
  case (Cons kv before)
  obtain k v where kv: "kv = (k, v)" by (cases kv)
  show ?case
    using Cons kv by (auto split: option.splits sum.splits)
qed

lemma search_loop_same_entry:
  assumes "\<And>f. apply_filter lib dt f key a = apply_filter lib dt f key b"
    and "dtype_of (env_df s) key = Some dt"
  shows "search_loop lib s (before @ (key, a) # after) =
         search_loop lib s (before @ (key, b) # after)"
  using assms(2)
proof (induction before arbitrary: s)
  case Nil
  then show ?case by (simp add: assms(1))
next
  case (Cons kv before)
  obtain k v where kv: "kv = (k, v)" by (cases kv)
  show ?case
    using Cons kv by (auto split: option.splits sum.splits)
qed

lemma apply_filter_scalar_pair:
  "apply_filter lib Numeric f key (Scalar v) = apply_filter lib Numeric f key (PyTuple [v, v])"
  by (cases v) (simp_all add: apply_filter_def)

lemma apply_filter_lower_only:
  "apply_filter lib Numeric f key (PyTuple [lo, PNone]) = apply_filter lib Numeric f key (PyTuple [lo])"
  by (simp add: apply_filter_def)

text \<open>
  C5. On a numeric column the value \<open>v\<close> and the tuple \<open>(v, v)\<close> are the same filter,
  for every \<open>v\<close> and wherever the entry stands among the keyword arguments: the filters
  return the same rows (or raise the same error), and \<open>filter_subset\<close> the same result.
\<close>

theorem scalar_same_as_equal_range:
  assumes "dtype_of d key = Some Numeric"
  shows "sampler_filter lib d (before @ (key, Scalar v) # after) =
           sampler_filter lib d (before @ (key, PyTuple [v, v]) # after) \<and>
         filter_subset lib rnd d return_all conv_id_colname (before @ (key, Scalar v) # after) =
           filter_subset lib rnd d return_all conv_id_colname (before @ (key, PyTuple [v, v]) # after)"
proof -
  have "sampler_filter lib d (before @ (key, Scalar v) # after) =
        sampler_filter lib d (before @ (key, PyTuple [v, v]) # after)"
    unfolding sampler_filter_def
    by (rule sampler_loop_same_entry [where dt = Numeric])
       (simp_all add: apply_filter_scalar_pair assms)
  then show ?thesis by (simp add: filter_subset_def)
qed

text \<open>
  On the example table, \<open>turns=3\<close> and \<open>turns=(3, 3)\<close> both give the conversation \<open>a\<close>.
\<close>

theorem scalar_same_as_equal_range_witness:
  "dtype_of chat_table ''turns'' = Some Numeric \<and>
   sampler_filter lib0 chat_table [(''turns'', Scalar (PInt 3))] =
     sampler_filter lib0 chat_table [(''turns'', PyTuple [PInt 3, PInt 3])] \<and>
   filter_subset lib0 rnd0 chat_table True ''conv_id'' [(''turns'', Scalar (PInt 3))] =
     filter_subset lib0 rnd0 chat_table True ''conv_id'' [(''turns'', PyTuple [PInt 3, PInt 3])] \<and>
   filter_subset lib0 rnd0 chat_table True ''conv_id'' [(''turns'', Scalar (PInt 3))] =
     Inr (Keys [PStr ''a''])"
proof -
  have numeric: "dtype_of chat_table ''turns'' = Some Numeric"
    by code_simp
  have run: "filter_subset lib0 rnd0 chat_table True ''conv_id'' [(''turns'', Scalar (PInt 3))] =
               Inr (Keys [PStr ''a''])"
    by code_simp
  from scalar_same_as_equal_range
         [OF numeric, where lib = lib0 and before = "[]" and v = "PInt 3" and after = "[]"
            and rnd = rnd0 and return_all = True and conv_id_colname = "''conv_id''"]
    numeric run
  show ?thesis by simp
qed

lemma cell_cmp_Ge_numeric:
  "cell_cmp Ge n (as_dtype Numeric c) = (case c of PInt m \<Rightarrow> n \<le> m | _ \<Rightarrow> False)"
  by (cases c) simp_all

lemma apply_filter_lower_bound:
  "apply_filter lib Numeric f key (PyTuple [PInt n]) =
     Inr (f\<lparr>rows := filter (\<lambda>r. case cell r key of PInt m \<Rightarrow> n \<le> m | _ \<Rightarrow> False) (rows f)\<rparr>)"
  by (simp add: apply_filter_def is_not_None_def masked_def select_rows_map cell_cmp_Ge_numeric)

text \<open>
  C6, as amended. On a numeric column the tuples \<open>(lo, None)\<close> and \<open>(lo,)\<close> are the same
  filter, in \<open>filter_subset\<close> and in \<open>search_text_matches\<close>, for every \<open>lo\<close> and wherever
  the entry stands. For a number \<open>n\<close> each of them keeps exactly the rows whose value is a
  number that is at least \<open>n\<close>, with no upper bound: of the input in \<open>filter_subset\<close>, of
  the rows that passed the text search in \<open>search_text_matches\<close>. (The list \<open>[lo]\<close> is no
  bound: the column is compared with it by \<open>==\<close>.)
\<close>

theorem lower_bound_pair_same_as_singleton:
  assumes "dtype_of d key = Some Numeric"
  shows "sampler_filter lib d (before @ (key, PyTuple [lo, PNone]) # after) =
           sampler_filter lib d (before @ (key, PyTuple [lo]) # after) \<and>
         search_filter lib d t case_sensitive from_start (before @ (key, PyTuple [lo, PNone]) # after) =
           search_filter lib d t case_sensitive from_start (before @ (key, PyTuple [lo]) # after) \<and>
         sampler_filter lib d [(key, PyTuple [PInt n])] =
           Inr \<lparr>env_df = d,
                env_filtered =
                  d\<lparr>rows := filter (\<lambda>r. case cell r key of PInt m \<Rightarrow> n \<le> m | _ \<Rightarrow> False)
                               (rows d)\<rparr>\<rparr> \<and>
         sampler_filter lib d [(key, PyTuple [PInt n, PNone])] =
           Inr \<lparr>env_df = d,
                env_filtered =
                  d\<lparr>rows := filter (\<lambda>r. case cell r key of PInt m \<Rightarrow> n \<le> m | _ \<Rightarrow> False)
                               (rows d)\<rparr>\<rparr> \<and>
         search_filter lib d t case_sensitive from_start [(key, PyTuple [PInt n])] =
           (case text_match lib d t case_sensitive from_start of
              Inl e \<Rightarrow> ([], Inl e)
            | Inr f \<Rightarrow>
                ([], Inr \<lparr>env_df = d,
                          env_filtered =
                            f\<lparr>rows := filter (\<lambda>r. case cell r key of PInt m \<Rightarrow> n \<le> m | _ \<Rightarrow> False)
                                         (rows f)\<rparr>\<rparr>)) \<and>
         search_filter lib d t case_sensitive from_start [(key, PyTuple [PInt n, PNone])] =
           (case text_match lib d t case_sensitive from_start of
              Inl e \<Rightarrow> ([], Inl e)
            | Inr f \<Rightarrow>
                ([], Inr \<lparr>env_df = d,
                          env_filtered =
                            f\<lparr>rows := filter (\<lambda>r. case cell r key of PInt m \<Rightarrow> n \<le> m | _ \<Rightarrow> False)
                                         (rows f)\<rparr>\<rparr>))"
proof -
  have a: "sampler_filter lib d (before @ (key, PyTuple [lo, PNone]) # after) =
        sampler_filter lib d (before @ (key, PyTuple [lo]) # after)"
    unfolding sampler_filter_def
    by (rule sampler_loop_same_entry [where dt = Numeric])
       (simp_all add: apply_filter_lower_only assms)
  have b: "search_filter lib d t case_sensitive from_start (before @ (key, PyTuple [lo, PNone]) # after) =
           search_filter lib d t case_sensitive from_start (before @ (key, PyTuple [lo]) # after)"
  proof (cases "text_match lib d t case_sensitive from_start")
    case (Inl e)
    then show ?thesis by (simp add: search_filter_def)
  next
    case (Inr f)
    have "search_loop lib \<lparr>env_df = d, env_filtered = f\<rparr> (before @ (key, PyTuple [lo, PNone]) # after) =
          search_loop lib \<lparr>env_df = d, env_filtered = f\<rparr> (before @ (key, PyTuple [lo]) # after)"
      by (rule search_loop_same_entry [where dt = Numeric])
         (simp_all add: apply_filter_lower_only assms)
    then show ?thesis using Inr by (simp add: search_filter_def)
  qed
  have c: "sampler_filter lib d [(key, PyTuple [PInt n])] =
           Inr \<lparr>env_df = d,
                env_filtered =
                  d\<lparr>rows := filter (\<lambda>r. case cell r key of PInt m \<Rightarrow> n \<le> m | _ \<Rightarrow> False)
                               (rows d)\<rparr>\<rparr>"
    using assms by (simp add: sampler_filter_def apply_filter_lower_bound)
  have c': "sampler_filter lib d [(key, PyTuple [PInt n, PNone])] =
           Inr \<lparr>env_df = d,
                env_filtered =
                  d\<lparr>rows := filter (\<lambda>r. case cell r key of PInt m \<Rightarrow> n \<le> m | _ \<Rightarrow> False)
                               (rows d)\<rparr>\<rparr>"
    using assms
    by (simp add: sampler_filter_def apply_filter_lower_only apply_filter_lower_bound)
  have e: "search_filter lib d t case_sensitive from_start [(key, PyTuple [PInt n])] =
           (case text_match lib d t case_sensitive from_start of
              Inl e \<Rightarrow> ([], Inl e)
            | Inr f \<Rightarrow>
                ([], Inr \<lparr>env_df = d,
                          env_filtered =
                            f\<lparr>rows := filter (\<lambda>r. case cell r key of PInt m \<Rightarrow> n \<le> m | _ \<Rightarrow> False)
                                         (rows f)\<rparr>\<rparr>))"
    using assms
    by (simp add: search_filter_def apply_filter_lower_bound split: sum.splits)
  have e': "search_filter lib d t case_sensitive from_start [(key, PyTuple [PInt n, PNone])] =
           (case text_match lib d t case_sensitive from_start of
              Inl e \<Rightarrow> ([], Inl e)
            | Inr f \<Rightarrow>
                ([], Inr \<lparr>env_df = d,
                          env_filtered =
                            f\<lparr>rows := filter (\<lambda>r. case cell r key of PInt m \<Rightarrow> n \<le> m | _ \<Rightarrow> False)
                                         (rows f)\<rparr>\<rparr>))"
    using assms
    by (simp add: search_filter_def apply_filter_lower_only apply_filter_lower_bound
          split: sum.splits)
  from a b c c' e e' show ?thesis by simp
qed

text \<open>
  C6 as stated fails for the list \<open>[lo]\<close>. On the example table \<open>turns=(5, None)\<close> keeps the
  rows 2 and 3, and \<open>turns=[5]\<close> is an error: the list has one element and the column four.
  On a table of one row, whose \<open>turns\<close> is 1, \<open>turns=(0, None)\<close> keeps the row and
  \<open>turns=[0]\<close> keeps nothing.
\<close>

theorem list_is_no_lower_bound:
  "sampler_filter lib0 chat_table [(''turns'', PyTuple [PInt 5, PNone])] =
     Inr \<lparr>env_df = chat_table,
          env_filtered =
            chat_table\<lparr>rows := [chat_row 2 (PStr ''b'') 0 (PStr ''user'') (PStr ''hi there'') 10,
                                chat_row 3 (PStr ''b'') 1 PNone (PStr ''abc'') 10]\<rparr>\<rparr> \<and>
   sampler_filter lib0 chat_table [(''turns'', PyList [PInt 5])] = Inl LengthsMismatch \<and>
   sampler_filter lib0 null_table [(''turns'', PyTuple [PInt 0, PNone])] =
     Inr \<lparr>env_df = null_table, env_filtered = null_table\<rparr> \<and>
   sampler_filter lib0 null_table [(''turns'', PyList [PInt 0])] =
     Inr \<lparr>env_df = null_table, env_filtered = null_table\<lparr>rows := []\<rparr>\<rparr> \<and>
   rows null_table \<noteq> []"
  by code_simp

text \<open>
  On the example table, \<open>turns=(5, None)\<close> and \<open>turns=(5,)\<close> both keep the rows 2 and 3, and
  of the rows with the text \<open>there\<close> the row 2.
\<close>

theorem lower_bound_pair_same_as_singleton_witness:
  "dtype_of chat_table ''turns'' = Some Numeric \<and>
   sampler_filter lib0 chat_table [(''turns'', PyTuple [PInt 5, PNone])] =
     sampler_filter lib0 chat_table [(''turns'', PyTuple [PInt 5])] \<and>
   search_filter lib0 chat_table ''there'' True False [(''turns'', PyTuple [PInt 5, PNone])] =
     search_filter lib0 chat_table ''there'' True False [(''turns'', PyTuple [PInt 5])] \<and>
   sampler_filter lib0 chat_table [(''turns'', PyTuple [PInt 5])] =
     Inr \<lparr>env_df = chat_table,
          env_filtered =
            chat_table\<lparr>rows := [chat_row 2 (PStr ''b'') 0 (PStr ''user'') (PStr ''hi there'') 10,
                                chat_row 3 (PStr ''b'') 1 PNone (PStr ''abc'') 10]\<rparr>\<rparr> \<and>
   search_filter lib0 chat_table ''there'' True False [(''turns'', PyTuple [PInt 5])] =
     ([], Inr \<lparr>env_df = chat_table,
               env_filtered =
                 chat_table\<lparr>rows := [chat_row 2 (PStr ''b'') 0 (PStr ''user'') (PStr ''hi there'') 10]\<rparr>\<rparr>)"
proof -
  have numeric: "dtype_of chat_table ''turns'' = Some Numeric"
    by code_simp
  have kept: "filter (\<lambda>r. case cell r ''turns'' of PInt m \<Rightarrow> 5 \<le> m | _ \<Rightarrow> False) (rows chat_table) =
                [chat_row 2 (PStr ''b'') 0 (PStr ''user'') (PStr ''hi there'') 10,
                 chat_row 3 (PStr ''b'') 1 PNone (PStr ''abc'') 10]"
    by code_simp
  have found: "(case text_match lib0 chat_table ''there'' True False of
              Inl e \<Rightarrow> ([] :: string list, Inl e)
            | Inr f \<Rightarrow>
                ([], Inr \<lparr>env_df = chat_table,
                          env_filtered =
                            f\<lparr>rows := filter (\<lambda>r. case cell r ''turns'' of PInt m \<Rightarrow> 5 \<le> m | _ \<Rightarrow> False)
                                         (rows f)\<rparr>\<rparr>)) =
     ([], Inr \<lparr>env_df = chat_table,
               env_filtered =
                 chat_table\<lparr>rows := [chat_row 2 (PStr ''b'') 0 (PStr ''user'') (PStr ''hi there'') 10]\<rparr>\<rparr>)"
    by code_simp
  from lower_bound_pair_same_as_singleton
         [OF numeric, where lib = lib0 and before = "[]" and lo = "PInt 5" and after = "[]"
            and t = "''there''" and case_sensitive = True and from_start = False and n = 5]
    numeric kept found
  show ?thesis by simp
qed

section \<open>Filters on a column that is not numeric\<close>

lemma apply_filter_isin:
  "apply_filter lib Object f key (PyList xs) =
     Inr (f\<lparr>rows := filter (\<lambda>r. cell r key \<in> set xs) (rows f)\<rparr>)"
  by (simp add: apply_filter_def series_isin_def select_rows_map)

lemma apply_filter_equal:
  "apply_filter lib Object f key (Scalar x) =
     Inr (f\<lparr>rows := filter (\<lambda>r. \<not> isna x \<and> cell r key = x) (rows f)\<rparr>)"
  by (simp add: apply_filter_def scalar_eq_def masked_def select_rows_map)

lemma apply_filter_tuple:
  "apply_filter lib Object f key (PyTuple xs) = Inr (f\<lparr>rows := []\<rparr>)"
  using select_rows_map [of "\<lambda>x. False" Object key f]
  by (simp add: apply_filter_def masked_def)

text \<open>
  C7, as amended. On a column that is not numeric, a list keeps exactly the rows whose
  value is an element of the list; a tuple is compared as one value and keeps no row; and
  a scalar \<open>x\<close> keeps exactly the rows whose value is \<open>x\<close> when \<open>x\<close> is neither \<open>None\<close> nor
  NaN, and no row otherwise. So the list \<open>[x]\<close> and the scalar \<open>x\<close> are the same filter for
  every \<open>x\<close> that is neither \<open>None\<close> nor NaN.
\<close>

theorem membership_and_equality_filters:
  assumes "dtype_of d key = Some Object"
  shows "sampler_filter lib d [(key, PyList xs)] =
           Inr \<lparr>env_df = d, env_filtered = d\<lparr>rows := filter (\<lambda>r. cell r key \<in> set xs) (rows d)\<rparr>\<rparr> \<and>
         sampler_filter lib d [(key, PyTuple xs)] =
           Inr \<lparr>env_df = d, env_filtered = d\<lparr>rows := []\<rparr>\<rparr> \<and>
         sampler_filter lib d [(key, Scalar x)] =
           Inr \<lparr>env_df = d,
                env_filtered = d\<lparr>rows := filter (\<lambda>r. \<not> isna x \<and> cell r key = x) (rows d)\<rparr>\<rparr> \<and>
         (\<not> isna x \<longrightarrow>
            sampler_filter lib d [(key, PyList [x])] = sampler_filter lib d [(key, Scalar x)])"
  using assms
  by (auto simp: sampler_filter_def apply_filter_isin apply_filter_equal apply_filter_tuple
        intro: filter_cong)

text \<open>
  C7 as stated fails for \<open>None\<close> and for a tuple. On a table whose only row has no role,
  \<open>role=[None]\<close> keeps the row and \<open>role=None\<close> keeps nothing. On the example table, whose
  rows 0 and 2 have the role \<open>user\<close>, the tuple \<open>role=('user',)\<close> keeps nothing.
\<close>

theorem membership_fails_for_null_and_tuple:
  "sampler_filter lib0 null_table [(''role'', PyList [PNone])] =
     Inr \<lparr>env_df = null_table, env_filtered = null_table\<rparr> \<and>
   sampler_filter lib0 null_table [(''role'', Scalar PNone)] =
     Inr \<lparr>env_df = null_table, env_filtered = null_table\<lparr>rows := []\<rparr>\<rparr> \<and>
   rows null_table \<noteq> [] \<and>
   sampler_filter lib0 chat_table [(''role'', PyTuple [PStr ''user''])] =
     Inr \<lparr>env_df = chat_table, env_filtered = chat_table\<lparr>rows := []\<rparr>\<rparr> \<and>
   filter (\<lambda>r. cell r ''role'' \<in> set [PStr ''user'']) (rows chat_table) =
     [chat_row 0 (PStr ''a'') 0 (PStr ''user'') (PStr ''Hi there'') 3,
      chat_row 2 (PStr ''b'') 0 (PStr ''user'') (PStr ''hi there'') 10]"
  by code_simp

text \<open>On the example table, \<open>role=['user']\<close> and \<open>role='user'\<close> both keep the rows 0 and 2.\<close>

theorem membership_and_equality_filters_witness:
  "dtype_of chat_table ''role'' = Some Object \<and> \<not> isna (PStr ''user'') \<and>
   sampler_filter lib0 chat_table [(''role'', PyList [PStr ''user''])] =
     sampler_filter lib0 chat_table [(''role'', Scalar (PStr ''user''))] \<and>
   sampler_filter lib0 chat_table [(''role'', Scalar (PStr ''user''))] =
     Inr \<lparr>env_df = chat_table,
          env_filtered =
            chat_table\<lparr>rows := [chat_row 0 (PStr ''a'') 0 (PStr ''user'') (PStr ''Hi there'') 3,
                                chat_row 2 (PStr ''b'') 0 (PStr ''user'') (PStr ''hi there'') 10]\<rparr>\<rparr> \<and>
   sampler_filter lib0 chat_table [(''role'', PyTuple [PStr ''user''])] =
     Inr \<lparr>env_df = chat_table, env_filtered = chat_table\<lparr>rows := []\<rparr>\<rparr>"
proof -
  have object: "dtype_of chat_table ''role'' = Some Object"
    by code_simp
  have present: "\<not> isna (PStr ''user'')"
    by code_simp
  have kept: "filter (\<lambda>r. \<not> isna (PStr ''user'') \<and> cell r ''role'' = PStr ''user'') (rows chat_table) =
                [chat_row 0 (PStr ''a'') 0 (PStr ''user'') (PStr ''Hi there'') 3,
                 chat_row 2 (PStr ''b'') 0 (PStr ''user'') (PStr ''hi there'') 10]"
    by code_simp
  from membership_and_equality_filters
         [OF object, where lib = lib0 and xs = "[PStr ''user'']" and x = "PStr ''user''"]
    object present kept
  show ?thesis by simp
qed

section \<open>Unknown columns\<close>

lemma sampler_loop_skip_unknown:
  "sampler_loop lib s kwargs =
     sampler_loop lib s (filter (\<lambda>kv. in_columns (env_df s) (fst kv)) kwargs)"
proof (induction kwargs arbitrary: s)
  case Nil
  show ?case by simp
next
  case (Cons kv kwargs)
  obtain k v where kv: "kv = (k, v)" by (cases kv)
  show ?case
  proof (cases "dtype_of (env_df s) k")
    case None
    then show ?thesis using Cons.IH [of s] kv by (simp add: in_columns_def)
  next
    case (Some dt)
    show ?thesis
    proof (cases "apply_filter lib dt (env_filtered s) k v")
      case (Inl e)
      then show ?thesis using Some kv by (simp add: in_columns_def)
    next
      case (Inr f)
      then show ?thesis
        using Some kv Cons.IH [of "s\<lparr>env_filtered := f\<rparr>"] by (simp add: in_columns_def)
    qed
  qed
qed

lemma search_loop_skip_unknown:
  "snd (search_loop lib s kwargs) =
     snd (search_loop lib s (filter (\<lambda>kv. in_columns (env_df s) (fst kv)) kwargs)) \<and>
   fst (search_loop lib s (filter (\<lambda>kv. in_columns (env_df s) (fst kv)) kwargs)) = []"
proof (induction kwargs arbitrary: s)
  case Nil
  show ?case by simp
next
  case (Cons kv kwargs)
  obtain k v where kv: "kv = (k, v)" by (cases kv)
  show ?case
  proof (cases "dtype_of (env_df s) k")
    case None
    then show ?thesis
      using Cons.IH [of s] kv by (auto simp: in_columns_def split: prod.splits)
  next
    case (Some dt)
    show ?thesis
    proof (cases "apply_filter lib dt (env_filtered s) k v")
      case (Inl e)
      then show ?thesis using Some kv by (simp add: in_columns_def)
    next
      case (Inr f)
      then show ?thesis
        using Some kv Cons.IH [of "s\<lparr>env_filtered := f\<rparr>"] by (simp add: in_columns_def)
    qed
  qed
qed

lemma search_loop_warnings:
  "search_loop lib s kwargs = (ws, Inr s') \<Longrightarrow>
     ws = map warning (filter (\<lambda>k. \<not> in_columns (env_df s) k) (map fst kwargs))"
proof (induction kwargs arbitrary: s ws)
  case Nil
  then show ?case by simp
next
  case (Cons kv kwargs)
  obtain k v where kv: "kv = (k, v)" by (cases kv)
  show ?case
  proof (cases "dtype_of (env_df s) k")
    case None
    then show ?thesis
      using Cons kv by (auto simp: in_columns_def split: prod.splits)
  next
    case (Some dt)
    with Cons.prems kv obtain f where
      f: "apply_filter lib dt (env_filtered s) k v = Inr f"
      and rest: "search_loop lib (s\<lparr>env_filtered := f\<rparr>) kwargs = (ws, Inr s')"
      by (auto split: sum.splits)
    from Cons.IH [OF rest] show ?thesis using Some kv by (simp add: in_columns_def)
  qed
qed

lemma search_loop_Inr:
  "search_loop lib s kwargs = (ws, Inr s') \<Longrightarrow>
     env_df s' = env_df s \<and>
     columns (env_filtered s') = columns (env_filtered s) \<and>
     subseq (rows (env_filtered s')) (rows (env_filtered s))"
proof (induction kwargs arbitrary: s ws)
  case Nil
  then show ?case by simp
next
  case (Cons kv kwargs)
  obtain key val where kv: "kv = (key, val)" by (cases kv)
  show ?case
  proof (cases "dtype_of (env_df s) key")
    case None
    then show ?thesis using Cons kv by (auto split: prod.splits)
  next
    case (Some dt)
    with Cons.prems kv obtain f where
      f: "apply_filter lib dt (env_filtered s) key val = Inr f"
      and rest: "search_loop lib (s\<lparr>env_filtered := f\<rparr>) kwargs = (ws, Inr s')"
      by (auto split: sum.splits)
    from Cons.IH [OF rest] apply_filter_Inr [OF f]
    show ?thesis using subseq_order.trans by auto
  qed
qed

text \<open>
  C8. A keyword argument that names no column of the table changes no result:
  \<open>filter_subset\<close> and \<open>search_text_matches\<close> return what they return without these
  arguments, and an unknown column is no error. \<open>filter_subset\<close> emits nothing;
  \<open>search_text_matches\<close> emits no warning when every argument names a column, and when it
  returns a result it has emitted one warning for each argument that names no column, in
  their order.
\<close>

theorem unknown_columns_ignored:
  "filter_subset lib rnd d return_all conv_id_colname kwargs =
     filter_subset lib rnd d return_all conv_id_colname
       (filter (\<lambda>kv. in_columns d (fst kv)) kwargs) \<and>
   snd (search_text_matches lib rnd d t case_sensitive from_start return_all kwargs) =
     snd (search_text_matches lib rnd d t case_sensitive from_start return_all
            (filter (\<lambda>kv. in_columns d (fst kv)) kwargs)) \<and>
   fst (search_text_matches lib rnd d t case_sensitive from_start return_all
          (filter (\<lambda>kv. in_columns d (fst kv)) kwargs)) = [] \<and>
   (snd (search_text_matches lib rnd d t case_sensitive from_start return_all kwargs) = Inr r \<longrightarrow>
      fst (search_text_matches lib rnd d t case_sensitive from_start return_all kwargs) =
        map warning (filter (\<lambda>k. \<not> in_columns d k) (map fst kwargs)))"
proof -
  let ?known = "filter (\<lambda>kv. in_columns d (fst kv)) kwargs"
  have a: "sampler_filter lib d kwargs = sampler_filter lib d ?known"
    using sampler_loop_skip_unknown [of lib "\<lparr>env_df = d, env_filtered = d\<rparr>" kwargs]
    by (simp add: sampler_filter_def)
  have b: "snd (search_filter lib d t case_sensitive from_start kwargs) =
           snd (search_filter lib d t case_sensitive from_start ?known) \<and>
           fst (search_filter lib d t case_sensitive from_start ?known) = []"
  proof (cases "text_match lib d t case_sensitive from_start")
    case (Inl e)
    then show ?thesis by (simp add: search_filter_def)
  next
    case (Inr f)
    then show ?thesis
      using search_loop_skip_unknown [of lib "\<lparr>env_df = d, env_filtered = f\<rparr>" kwargs]
      by (simp add: search_filter_def)
  qed
  have c: "ws = map warning (filter (\<lambda>k. \<not> in_columns d k) (map fst kwargs))"
    if "search_filter lib d t case_sensitive from_start kwargs = (ws, Inr s)" for ws s
  proof (cases "text_match lib d t case_sensitive from_start")
    case (Inl e)
    then show ?thesis using that by (simp add: search_filter_def)
  next
    case (Inr f)
    then show ?thesis
      using that search_loop_warnings [of lib "\<lparr>env_df = d, env_filtered = f\<rparr>" kwargs ws s]
      by (simp add: search_filter_def)
  qed
  obtain ws res where sf: "search_filter lib d t case_sensitive from_start kwargs = (ws, res)"
    by (cases "search_filter lib d t case_sensitive from_start kwargs")
  obtain ws' res' where sf': "search_filter lib d t case_sensitive from_start ?known = (ws', res')"
    by (cases "search_filter lib d t case_sensitive from_start ?known")
  from b sf sf' have eq: "res' = res" "ws' = []" by simp_all
  have 1: "filter_subset lib rnd d return_all conv_id_colname kwargs =
           filter_subset lib rnd d return_all conv_id_colname ?known"
    using a by (simp add: filter_subset_def)
  have 2: "snd (search_text_matches lib rnd d t case_sensitive from_start return_all kwargs) =
           snd (search_text_matches lib rnd d t case_sensitive from_start return_all ?known)"
    using sf sf' eq by (cases res) (simp_all add: search_text_matches_def)
  have 3: "fst (search_text_matches lib rnd d t case_sensitive from_start return_all ?known) = []"
    using sf' eq by (cases res) (simp_all add: search_text_matches_def)
  have 4: "fst (search_text_matches lib rnd d t case_sensitive from_start return_all kwargs) =
             map warning (filter (\<lambda>k. \<not> in_columns d k) (map fst kwargs))"
    if "snd (search_text_matches lib rnd d t case_sensitive from_start return_all kwargs) = Inr r"
  proof (cases res)
    case (Inl e)
    then show ?thesis using that sf by (simp add: search_text_matches_def split: if_splits)
  next
    case (Inr s)
    then show ?thesis
      using that sf c [of ws s] by (simp add: search_text_matches_def split: if_splits)
  qed
  from 1 2 3 4 show ?thesis by blast
qed

text \<open>
  On the example table, with the arguments \<open>bogus=1, turns=10\<close>: both functions answer as
  with \<open>turns=10\<close> alone, and the search warns about \<open>bogus\<close>.
\<close>

theorem unknown_columns_ignored_witness:
  "filter (\<lambda>kv. in_columns chat_table (fst kv))
     [(''bogus'', Scalar (PInt 1)), (''turns'', Scalar (PInt 10))] =
     [(''turns'', Scalar (PInt 10))] \<and>
   filter_subset lib0 rnd0 chat_table True ''conv_id''
     [(''bogus'', Scalar (PInt 1)), (''turns'', Scalar (PInt 10))] =
     filter_subset lib0 rnd0 chat_table True ''conv_id'' [(''turns'', Scalar (PInt 10))] \<and>
   search_text_matches lib0 rnd0 chat_table ''there'' True False True
     [(''bogus'', Scalar (PInt 1)), (''turns'', Scalar (PInt 10))] =
     ([warning ''bogus''], Inr (Keys [PStr ''b''])) \<and>
   search_text_matches lib0 rnd0 chat_table ''there'' True False True
     [(''turns'', Scalar (PInt 10))] =
     ([], Inr (Keys [PStr ''b'']))"
proof -
  let ?kwargs = "[(''bogus'', Scalar (PInt 1)), (''turns'', Scalar (PInt 10))]"
  have known: "filter (\<lambda>kv. in_columns chat_table (fst kv)) ?kwargs = [(''turns'', Scalar (PInt 10))]"
    by code_simp
  have unknown: "filter (\<lambda>k. \<not> in_columns chat_table k) (map fst ?kwargs) = [''bogus'']"
    by code_simp
  have run: "snd (search_text_matches lib0 rnd0 chat_table ''there'' True False True ?kwargs) =
               Inr (Keys [PStr ''b''])"
    by code_simp
  from unknown_columns_ignored
         [where lib = lib0 and rnd = rnd0 and d = chat_table and return_all = True
            and conv_id_colname = "''conv_id''" and kwargs = ?kwargs and t = "''there''"
            and case_sensitive = True and from_start = False and r = "Keys [PStr ''b'']"]
    known unknown run
  show ?thesis by (simp add: prod_eq_iff)
qed

section \<open>The errors of the two functions\<close>

lemma set_unique_from: "set (unique_from seen xs) = set xs - set seen"
  by (induction xs arbitrary: seen) auto

lemma set_unique: "set (unique xs) = set xs"
  by (simp add: unique_def set_unique_from)

lemma unique_Nil_iff: "unique xs = [] \<longleftrightarrow> xs = []"
  using set_unique [of xs] by (metis set_empty)

lemma random_choice_in:
  "xs \<noteq> [] \<Longrightarrow> \<exists>k. random_choice rnd xs = Inr k \<and> k \<in> set xs"
  by (simp add: random_choice_def)

lemma dtype_of_select_rows: "dtype_of (select_rows keep d) key = dtype_of d key"
  by (simp add: dtype_of_def select_rows_def)

lemma masked_Inl: "masked d r = Inl e \<Longrightarrow> r = Inl e"
  by (auto simp: masked_def split: sum.splits)

lemma from_library_Inl: "from_library r = Inl e \<Longrightarrow> \<exists>name. e = CompareError name"
  by (auto simp: from_library_def split: sum.splits)

lemma dtype_of_rows_update [simp]: "dtype_of (d\<lparr>rows := xs\<rparr>) key = dtype_of d key"
  by (simp add: dtype_of_def)

lemma column_values_rows_update [simp]:
  "column_values dt key (d\<lparr>rows := xs\<rparr>) = map (\<lambda>r. as_dtype dt (cell r key)) xs"
  by (simp add: column_values_def)

lemma array_eq_Inl: "array_eq xs vs = Inl e \<Longrightarrow> e = LengthsMismatch"
  by (auto simp: array_eq_def split: if_splits)

lemma series_eq_Inl:
  "series_eq lib dt xs v = Inl e \<Longrightarrow> e = LengthsMismatch \<or> (\<exists>name. e = CompareError name)"
  by (cases "(lib, dt, xs, v)" rule: series_eq.cases)
     (auto dest: from_library_Inl array_eq_Inl)

lemma scalar_order_Inl: "scalar_order opr xs v = Inl e \<Longrightarrow> e = TypeError"
  by (cases v) auto

lemma series_order_Inl:
  "series_order lib opr xs v = Inl e \<Longrightarrow> e = TypeError \<or> (\<exists>name. e = CompareError name)"
  by (cases v) (auto dest: scalar_order_Inl from_library_Inl)

lemma apply_filter_Inl:
  assumes "apply_filter lib dt d key val = Inl e"
  shows "e = TypeError \<or> e = LengthsMismatch \<or> (\<exists>name. e = CompareError name)"
proof (cases dt)
  case Object
  then show ?thesis
    using assms
    by (cases val) (auto simp: apply_filter_def dest!: masked_Inl dest: series_eq_Inl)
next
  case Numeric
  obtain lo hi where pr: "parse_range val = (lo, hi)" by (cases "parse_range val")
  show ?thesis
    using assms Numeric pr
    by (auto simp: apply_filter_def split: if_splits sum.splits
          dest!: masked_Inl dest: series_eq_Inl series_order_Inl)
qed

lemma search_loop_Inl:
  "search_loop lib s kwargs = (ws, Inl e) \<Longrightarrow>
     e = TypeError \<or> e = LengthsMismatch \<or> (\<exists>name. e = CompareError name)"
proof (induction kwargs arbitrary: s ws)
  case Nil
  then show ?case by simp
next
  case (Cons kv kwargs)
  obtain key val where kv: "kv = (key, val)" by (cases kv)
  show ?case
  proof (cases "dtype_of (env_df s) key")
    case None
    with Cons.prems kv obtain ws' where "search_loop lib s kwargs = (ws', Inl e)"
      by (auto split: prod.splits)
    from Cons.IH [OF this] show ?thesis .
  next
    case (Some dt)
    show ?thesis
    proof (cases "apply_filter lib dt (env_filtered s) key val")
      case (Inl e')
      with Cons.prems kv Some have "e' = e" by simp
      with apply_filter_Inl [OF Inl] show ?thesis by simp
    next
      case (Inr f)
      with Cons.prems kv Some
      have "search_loop lib (s\<lparr>env_filtered := f\<rparr>) kwargs = (ws, Inl e)" by simp
      from Cons.IH [OF this] show ?thesis .
    qed
  qed
qed

lemma text_match_Inl:
  "text_match lib d t case_sensitive from_start = Inl e \<Longrightarrow>
     (e = KeyError ''message'' \<and> \<not> in_columns d ''message'') \<or> e = AttributeError \<or>
     (\<exists>name. e = CompileError name)"
  by (auto simp: text_match_def getitem_def in_columns_def str_match_def str_contains_def Let_def
        split: option.splits if_splits sum.splits dest!: masked_Inl)

lemma text_match_Inr:
  "text_match lib d t case_sensitive from_start = Inr f \<Longrightarrow>
     columns f = columns d \<and> subseq (rows f) (rows d)"
  by (auto simp: text_match_def Let_def split: sum.splits if_splits dest: masked_Inr)

lemma search_return_value:
  assumes c: "dtype_of f ''conv_id'' = Some cdt"
    and t: "dtype_of f ''turn_num'' = Some tdt"
    and r: "rows f \<noteq> []"
  shows "\<exists>k. k \<in> set (column_values cdt ''conv_id'' f) \<and>
           search_return lib rnd f return_all =
             Inr (if return_all then Keys (unique (column_values cdt ''conv_id'' f))
                  else KeyTurns k
                         (map (\<lambda>r. as_dtype tdt (cell r ''turn_num''))
                            (filter (\<lambda>r. \<not> isna k \<and> as_dtype cdt (cell r ''conv_id'') = k)
                               (rows f))))"
proof -
  let ?ids = "column_values cdt ''conv_id'' f"
  have "?ids \<noteq> []" using r by (simp add: column_values_def)
  then have "unique ?ids \<noteq> []" by (simp add: unique_Nil_iff)
  from random_choice_in [OF this, of rnd] obtain k where
    k: "random_choice rnd (unique ?ids) = Inr k" "k \<in> set ?ids"
    by (auto simp: set_unique)
  have sel: "select_rows (scalar_eq ?ids k) f =
               f\<lparr>rows := filter (\<lambda>r. \<not> isna k \<and> as_dtype cdt (cell r ''conv_id'') = k) (rows f)\<rparr>"
    unfolding scalar_eq_def by (rule select_rows_map)
  have "search_return lib rnd f return_all =
          Inr (if return_all then Keys (unique ?ids)
               else KeyTurns k
                      (map (\<lambda>r. as_dtype tdt (cell r ''turn_num''))
                         (filter (\<lambda>r. \<not> isna k \<and> as_dtype cdt (cell r ''conv_id'') = k)
                            (rows f))))"
    using c t k(1)
    by (simp add: search_return_def getitem_def masked_def sel)
  with k(2) show ?thesis by blast
qed

lemma dtype_of_same_columns: "columns f = columns d \<Longrightarrow> dtype_of f key = dtype_of d key"
  by (simp add: dtype_of_def)

lemma search_filter_Inr:
  assumes "search_filter lib d t case_sensitive from_start kwargs = (ws, Inr s)"
  shows "env_df s = d \<and> columns (env_filtered s) = columns d \<and>
         subseq (rows (env_filtered s)) (rows d)"
proof -
  from assms obtain f where
    f: "text_match lib d t case_sensitive from_start = Inr f"
    and l: "search_loop lib \<lparr>env_df = d, env_filtered = f\<rparr> kwargs = (ws, Inr s)"
    by (auto simp: search_filter_def split: sum.splits)
  from text_match_Inr [OF f] search_loop_Inr [OF l]
  show ?thesis using subseq_order.trans by auto
qed

lemma search_filter_Inl:
  assumes "search_filter lib d t case_sensitive from_start kwargs = (ws, Inl e)"
  shows "(e = KeyError ''message'' \<and> \<not> in_columns d ''message'') \<or>
         e = AttributeError \<or> (\<exists>name. e = CompileError name) \<or> e = TypeError \<or>
         e = LengthsMismatch \<or> (\<exists>name. e = CompareError name)"
proof (cases "text_match lib d t case_sensitive from_start")
  case (Inl e')
  then show ?thesis
    using assms text_match_Inl [OF Inl] by (auto simp: search_filter_def)
next
  case (Inr f)
  then show ?thesis
    using assms search_loop_Inl [of lib "\<lparr>env_df = d, env_filtered = f\<rparr>" kwargs ws e]
    by (auto simp: search_filter_def)
qed

lemma required_columns_present:
  "list_all (in_columns d) required_columns \<longleftrightarrow>
     in_columns d ''message'' \<and> in_columns d ''conv_id'' \<and> in_columns d ''turn_num''"
  by (simp add: required_columns_def)

lemma search_after_filter:
  assumes req: "list_all (in_columns d) required_columns"
    and sf: "search_filter lib d t case_sensitive from_start kwargs = (ws, Inr s)"
    and ne: "\<not> df_empty (env_filtered s)"
  shows "\<exists>cdt tdt k.
           dtype_of d ''conv_id'' = Some cdt \<and> dtype_of d ''turn_num'' = Some tdt \<and>
           k \<in> set (column_values cdt ''conv_id'' (env_filtered s)) \<and>
           search_text_matches lib rnd d t case_sensitive from_start return_all kwargs =
             (ws, Inr (if return_all
                       then Keys (unique (column_values cdt ''conv_id'' (env_filtered s)))
                       else KeyTurns k
                              (map (\<lambda>r. as_dtype tdt (cell r ''turn_num''))
                                 (filter (\<lambda>r. \<not> isna k \<and> as_dtype cdt (cell r ''conv_id'') = k)
                                    (rows (env_filtered s))))))"
proof -
  from req obtain cdt tdt where
    c: "dtype_of d ''conv_id'' = Some cdt" and t: "dtype_of d ''turn_num'' = Some tdt"
    by (auto simp: required_columns_present in_columns_def)
  from search_filter_Inr [OF sf] have cols: "columns (env_filtered s) = columns d" by simp
  have c': "dtype_of (env_filtered s) ''conv_id'' = Some cdt"
    and t': "dtype_of (env_filtered s) ''turn_num'' = Some tdt"
    using c t dtype_of_same_columns [OF cols] by simp_all
  from ne have r: "rows (env_filtered s) \<noteq> []" by (simp add: df_empty_def)
  from search_return_value [OF c' t' r, of lib rnd return_all] obtain k where
    k: "k \<in> set (column_values cdt ''conv_id'' (env_filtered s))"
    and v: "search_return lib rnd (env_filtered s) return_all =
             Inr (if return_all
                  then Keys (unique (column_values cdt ''conv_id'' (env_filtered s)))
                  else KeyTurns k
                         (map (\<lambda>r. as_dtype tdt (cell r ''turn_num''))
                            (filter (\<lambda>r. \<not> isna k \<and> as_dtype cdt (cell r ''conv_id'') = k)
                               (rows (env_filtered s)))))"
    by blast
  have "search_text_matches lib rnd d t case_sensitive from_start return_all kwargs =
          (ws, search_return lib rnd (env_filtered s) return_all)"
    using req sf ne by (simp add: search_text_matches_def)
  with c t k v show ?thesis by auto
qed

lemma search_text_matches_Inl:
  assumes req: "list_all (in_columns d) required_columns"
    and res: "snd (search_text_matches lib rnd d t case_sensitive from_start return_all kwargs) = Inl e"
  shows "e = AttributeError \<or> (\<exists>name. e = CompileError name) \<or> e = TypeError \<or>
         e = LengthsMismatch \<or> (\<exists>name. e = CompareError name)"
proof -
  obtain ws r where sf: "search_filter lib d t case_sensitive from_start kwargs = (ws, r)"
    by (cases "search_filter lib d t case_sensitive from_start kwargs")
  show ?thesis
  proof (cases r)
    case (Inl e')
    with sf res req have "e' = e" by (simp add: search_text_matches_def)
    with search_filter_Inl [of lib d t case_sensitive from_start kwargs ws e] sf Inl req
    show ?thesis by (auto simp: required_columns_present)
  next
    case (Inr s)
    show ?thesis
    proof (cases "df_empty (env_filtered s)")
      case True
      with sf Inr res req show ?thesis by (simp add: search_text_matches_def)
    next
      case False
      from search_after_filter [OF req sf [unfolded Inr] False, of rnd return_all] res
      show ?thesis by auto
    qed
  qed
qed

section \<open>The required columns of \<open>search_text_matches\<close>\<close>

text \<open>
  C1, as amended. When one of the columns \<open>message\<close>, \<open>conv_id\<close>, \<open>turn_num\<close> is missing,
  \<open>search_text_matches\<close> raises the \<open>ValueError\<close> of line 79, whose message lists the three
  required columns whichever of them are missing, and it raises nothing else and emits no
  warning. When the table has all three, that \<open>ValueError\<close> is never raised.
\<close>

theorem schema_error_lists_required_columns:
  "(\<not> list_all (in_columns d) required_columns \<longrightarrow>
      search_text_matches lib rnd d t case_sensitive from_start return_all kwargs =
        ([], Inl (ValueError [''message'', ''conv_id'', ''turn_num'']))) \<and>
   (list_all (in_columns d) required_columns \<longrightarrow>
      snd (search_text_matches lib rnd d t case_sensitive from_start return_all kwargs) \<noteq>
        Inl (ValueError cols))"
proof -
  have "snd (search_text_matches lib rnd d t case_sensitive from_start return_all kwargs) \<noteq>
          Inl (ValueError cols)"
    if "list_all (in_columns d) required_columns"
    using search_text_matches_Inl [OF that, of lib rnd t case_sensitive from_start return_all kwargs
        "ValueError cols"]
    by auto
  then show ?thesis by (auto simp: search_text_matches_def required_columns_def)
qed

text \<open>
  C1 as stated fails: on a table that has the column \<open>message\<close> and neither \<open>conv_id\<close>
  nor \<open>turn_num\<close>, the error lists \<open>message\<close> too.
\<close>

theorem schema_error_lists_present_column:
  "in_columns message_only_table ''message'' \<and>
   search_text_matches lib0 rnd0 message_only_table ''hi'' True False False [] =
     ([], Inl (ValueError [''message'', ''conv_id'', ''turn_num'']))"
  by code_simp

text \<open>
  The table with only \<open>message\<close> raises the error; the example table does not.
\<close>

theorem schema_error_lists_required_columns_witness:
  "\<not> list_all (in_columns message_only_table) required_columns \<and>
   search_text_matches lib0 rnd0 message_only_table ''hi'' True False True [] =
     ([], Inl (ValueError [''message'', ''conv_id'', ''turn_num''])) \<and>
   list_all (in_columns chat_table) required_columns \<and>
   snd (search_text_matches lib0 rnd0 chat_table ''hi'' True False True []) \<noteq>
     Inl (ValueError required_columns)"
proof -
  have missing: "\<not> list_all (in_columns message_only_table) required_columns"
    by code_simp
  have present: "list_all (in_columns chat_table) required_columns"
    by code_simp
  from missing
    schema_error_lists_required_columns
      [where d = message_only_table and lib = lib0 and rnd = rnd0 and t = "''hi''"
         and case_sensitive = True and from_start = False and return_all = True and kwargs = "[]"]
  have a: "search_text_matches lib0 rnd0 message_only_table ''hi'' True False True [] =
             ([], Inl (ValueError [''message'', ''conv_id'', ''turn_num'']))"
    by blast
  from present
    schema_error_lists_required_columns
      [where d = chat_table and lib = lib0 and rnd = rnd0 and t = "''hi''"
         and case_sensitive = True and from_start = False and return_all = True and kwargs = "[]"
         and cols = required_columns]
  have b: "snd (search_text_matches lib0 rnd0 chat_table ''hi'' True False True []) \<noteq>
             Inl (ValueError required_columns)"
    by blast
  from missing present a b show ?thesis by blast
qed

section \<open>The text search anywhere in the message\<close>

text \<open>
  C2. Without \<open>from_start\<close> the text is given to \<open>str.contains\<close> as it is, and read as
  a regular expression: the text \<open>a.c\<close> keeps the row whose message is \<open>abc\<close>, which does
  not contain \<open>a.c\<close>.
\<close>

theorem contains_treats_text_as_pattern:
  "text_match lib chat_table ''a.c'' True False =
     Inr (chat_table\<lparr>rows := [chat_row 3 (PStr ''b'') 1 PNone (PStr ''abc'') 10]\<rparr>) \<and>
   \<not> sublist ''a.c'' ''abc''"
  by code_simp

section \<open>The turns returned by \<open>search_text_matches\<close>\<close>

text \<open>
  C10, as amended. When \<open>search_text_matches\<close> without \<open>return_all\<close> returns a pair of a
  conversation id \<open>k\<close> and a list of turns, \<open>k\<close> is the conversation id of a row that passed
  the text search and the column filters, and the turns are the \<open>turn_num\<close> values of
  the rows that passed and whose conversation id is \<open>k\<close>, in the order of these rows. The
  list is not empty when \<open>k\<close> is neither \<open>None\<close> nor NaN; for such a \<open>k\<close> no row compares
  equal, and the list is empty.
\<close>

theorem search_turns_of_chosen_conversation:
  assumes "search_text_matches lib rnd d t case_sensitive from_start False kwargs =
             (ws, Inr (KeyTurns k turns))"
  shows "\<exists>s cdt tdt.
           search_filter lib d t case_sensitive from_start kwargs = (ws, Inr s) \<and>
           dtype_of d ''conv_id'' = Some cdt \<and> dtype_of d ''turn_num'' = Some tdt \<and>
           k \<in> set (column_values cdt ''conv_id'' (env_filtered s)) \<and>
           turns =
             map (\<lambda>r. as_dtype tdt (cell r ''turn_num''))
               (filter (\<lambda>r. \<not> isna k \<and> as_dtype cdt (cell r ''conv_id'') = k)
                  (rows (env_filtered s))) \<and>
           (\<not> isna k \<longrightarrow> turns \<noteq> [])"
proof -
  have req: "list_all (in_columns d) required_columns"
    using assms by (auto simp: search_text_matches_def split: if_splits)
  obtain ws' r where sf: "search_filter lib d t case_sensitive from_start kwargs = (ws', r)"
    by (cases "search_filter lib d t case_sensitive from_start kwargs")
  from assms req sf obtain s where
    s: "r = Inr s" "ws' = ws" "\<not> df_empty (env_filtered s)"
    by (cases r) (auto simp: search_text_matches_def split: if_splits)
  from search_after_filter [OF req sf [unfolded s] s(3), of rnd False] assms
  obtain cdt tdt k' where
    c: "dtype_of d ''conv_id'' = Some cdt" and t: "dtype_of d ''turn_num'' = Some tdt"
    and k': "k' \<in> set (column_values cdt ''conv_id'' (env_filtered s))"
    and eq: "k = k'"
      "turns = map (\<lambda>r. as_dtype tdt (cell r ''turn_num''))
                 (filter (\<lambda>r. \<not> isna k' \<and> as_dtype cdt (cell r ''conv_id'') = k')
                    (rows (env_filtered s)))"
    by auto
  have "turns \<noteq> []" if "\<not> isna k"
  proof -
    from k' eq(1) obtain r where "r \<in> set (rows (env_filtered s))"
      "as_dtype cdt (cell r ''conv_id'') = k"
      by (auto simp: column_values_def)
    with that have "filter (\<lambda>r. \<not> isna k \<and> as_dtype cdt (cell r ''conv_id'') = k)
                      (rows (env_filtered s)) \<noteq> []"
      by (auto simp: filter_empty_conv)
    with eq show ?thesis by simp
  qed
  with sf s c t k' eq show ?thesis by auto
qed

text \<open>
  C10 as stated fails: when the only matching row has no conversation id, the search
  returns \<open>None\<close> as the conversation with an empty list of turns.
\<close>

theorem search_null_conversation_no_turns:
  "search_text_matches lib0 rnd0 null_table ''hi'' True False False [] =
     ([], Inr (KeyTurns PNone []))"
  by code_simp

text \<open>
  On the example table the text \<open>Hi\<close> is found in the turns 0 and 1 of conversation \<open>a\<close>.
\<close>

theorem search_turns_of_chosen_conversation_witness:
  "search_text_matches lib0 rnd0 chat_table ''Hi'' True False False [] =
     ([], Inr (KeyTurns (PStr ''a'') [PInt 0, PInt 1])) \<and>
   \<not> isna (PStr ''a'') \<and> [PInt 0, PInt 1] \<noteq> []"
proof -
  have run: "search_text_matches lib0 rnd0 chat_table ''Hi'' True False False [] =
               ([], Inr (KeyTurns (PStr ''a'') [PInt 0, PInt 1]))"
    by code_simp
  have present: "\<not> isna (PStr ''a'')"
    by code_simp
  from search_turns_of_chosen_conversation [OF run] present
  have "[PInt 0, PInt 1] \<noteq> ([] :: scalar list)"
    by blast
  with run present show ?thesis by blast
qed

section \<open>No match, and the errors raised\<close>

text \<open>
  C9, as amended. When the filters return and no row is left, \<open>filter_subset\<close> and
  \<open>search_text_matches\<close> return \<open>None\<close> and raise nothing. After its filters have returned,
  \<open>filter_subset\<close> raises exactly when rows are left and the table has no column of the
  name \<open>conv_id_colname\<close>, and then a \<open>KeyError\<close>; on a table with that column it returns a
  result. On a table with the three required columns, \<open>search_text_matches\<close> returns a
  result whenever its text search and filters have returned. An error raised in the
  filters, or in the text search, is raised by the function.
\<close>

theorem no_match_returns_None:
  "(sampler_filter lib d kwargs = Inr s \<and> df_empty (env_filtered s) \<longrightarrow>
      filter_subset lib rnd d return_all conv_id_colname kwargs = Inr ReturnNone) \<and>
   (list_all (in_columns d) required_columns \<and>
    search_filter lib d t case_sensitive from_start kwargs = (ws, Inr s') \<and>
    df_empty (env_filtered s') \<longrightarrow>
      search_text_matches lib rnd d t case_sensitive from_start return_all kwargs =
        (ws, Inr ReturnNone)) \<and>
   (sampler_filter lib d kwargs = Inr s \<and> \<not> df_empty (env_filtered s) \<and>
    \<not> in_columns d conv_id_colname \<longrightarrow>
      filter_subset lib rnd d return_all conv_id_colname kwargs = Inl (KeyError conv_id_colname)) \<and>
   (sampler_filter lib d kwargs = Inr s \<and> in_columns d conv_id_colname \<longrightarrow>
      (\<exists>r. filter_subset lib rnd d return_all conv_id_colname kwargs = Inr r)) \<and>
   (list_all (in_columns d) required_columns \<and>
    search_filter lib d t case_sensitive from_start kwargs = (ws, Inr s') \<longrightarrow>
      (\<exists>r. search_text_matches lib rnd d t case_sensitive from_start return_all kwargs =
             (ws, Inr r))) \<and>
   (sampler_filter lib d kwargs = Inl e \<longrightarrow>
      filter_subset lib rnd d return_all conv_id_colname kwargs = Inl e) \<and>
   (list_all (in_columns d) required_columns \<and>
    search_filter lib d t case_sensitive from_start kwargs = (ws, Inl e) \<longrightarrow>
      search_text_matches lib rnd d t case_sensitive from_start return_all kwargs = (ws, Inl e))"
proof -
  have 1: "filter_subset lib rnd d return_all conv_id_colname kwargs = Inr ReturnNone"
    if "sampler_filter lib d kwargs = Inr s" "df_empty (env_filtered s)"
    using that by (simp add: filter_subset_def)
  have 2: "search_text_matches lib rnd d t case_sensitive from_start return_all kwargs =
             (ws, Inr ReturnNone)"
    if "list_all (in_columns d) required_columns"
      "search_filter lib d t case_sensitive from_start kwargs = (ws, Inr s')"
      "df_empty (env_filtered s')"
    using that by (simp add: search_text_matches_def)
  have cols: "columns (env_filtered s) = columns d" if "sampler_filter lib d kwargs = Inr s"
    using sampler_loop_Inr [of lib "\<lparr>env_df = d, env_filtered = d\<rparr>" kwargs s] that
    by (simp add: sampler_filter_def)
  have 3: "filter_subset lib rnd d return_all conv_id_colname kwargs =
             Inl (KeyError conv_id_colname)"
    if f: "sampler_filter lib d kwargs = Inr s" and ne: "\<not> df_empty (env_filtered s)"
      and absent: "\<not> in_columns d conv_id_colname"
    using f ne absent dtype_of_same_columns [OF cols [OF f], of conv_id_colname]
    by (simp add: filter_subset_def getitem_def in_columns_def)
  have 4: "\<exists>r. filter_subset lib rnd d return_all conv_id_colname kwargs = Inr r"
    if f: "sampler_filter lib d kwargs = Inr s" and present: "in_columns d conv_id_colname"
  proof (cases "df_empty (env_filtered s)")
    case True
    with 1 [OF f] show ?thesis by blast
  next
    case False
    from present obtain dt where dt: "dtype_of d conv_id_colname = Some dt"
      by (auto simp: in_columns_def)
    from False have "column_values dt conv_id_colname (env_filtered s) \<noteq> []"
      by (simp add: df_empty_def column_values_def)
    then have "unique (column_values dt conv_id_colname (env_filtered s)) \<noteq> []"
      by (simp add: unique_Nil_iff)
    with f False dt dtype_of_same_columns [OF cols [OF f], of conv_id_colname]
    show ?thesis
      by (simp add: filter_subset_def getitem_def random_choice_def)
  qed
  have 5: "\<exists>r. search_text_matches lib rnd d t case_sensitive from_start return_all kwargs =
                (ws, Inr r)"
    if req: "list_all (in_columns d) required_columns"
      and sf: "search_filter lib d t case_sensitive from_start kwargs = (ws, Inr s')"
  proof (cases "df_empty (env_filtered s')")
    case True
    with 2 [OF req sf] show ?thesis by blast
  next
    case False
    from search_after_filter [OF req sf False, of rnd return_all] show ?thesis by blast
  qed
  have 6: "filter_subset lib rnd d return_all conv_id_colname kwargs = Inl e"
    if "sampler_filter lib d kwargs = Inl e"
    using that by (simp add: filter_subset_def)
  have 7: "search_text_matches lib rnd d t case_sensitive from_start return_all kwargs =
             (ws, Inl e)"
    if "list_all (in_columns d) required_columns"
      "search_filter lib d t case_sensitive from_start kwargs = (ws, Inl e)"
    using that by (simp add: search_text_matches_def)
  from 1 2 3 4 5 6 7 show ?thesis by blast
qed

text \<open>
  C9 as stated fails: on a table without the column \<open>conv_id\<close>, \<open>filter_subset\<close> with no
  filter raises a \<open>KeyError\<close>.
\<close>

theorem sampler_raises_without_group_key_column:
  "filter_subset lib0 rnd0 message_only_table False ''conv_id'' [] = Inl (KeyError ''conv_id'')"
  by code_simp

text \<open>
  On the example table: \<open>turns=0\<close> and the text \<open>zzz\<close> match nothing and give \<open>None\<close>; the
  bound \<open>('x',)\<close> on the numeric column \<open>turns\<close> raises a \<open>TypeError\<close> in both functions;
  with \<open>turns=10\<close> both return the conversation \<open>b\<close>. On the table with the column
  \<open>message\<close> only, \<open>filter_subset\<close> raises a \<open>KeyError\<close>.
\<close>

theorem no_match_returns_None_witness:
  "filter_subset lib0 rnd0 chat_table True ''conv_id'' [(''turns'', Scalar (PInt 0))] =
     Inr ReturnNone \<and>
   search_text_matches lib0 rnd0 chat_table ''zzz'' True False True [] = ([], Inr ReturnNone) \<and>
   filter_subset lib0 rnd0 chat_table True ''conv_id'' [(''turns'', PyTuple [PStr ''x''])] =
     Inl TypeError \<and>
   search_text_matches lib0 rnd0 chat_table ''Hi'' True False True
     [(''turns'', PyTuple [PStr ''x''])] = ([], Inl TypeError) \<and>
   filter_subset lib0 rnd0 message_only_table True ''conv_id'' [] = Inl (KeyError ''conv_id'') \<and>
   filter_subset lib0 rnd0 chat_table True ''conv_id'' [(''turns'', Scalar (PInt 10))] =
     Inr (Keys [PStr ''b'']) \<and>
   search_text_matches lib0 rnd0 chat_table ''there'' True False True
     [(''turns'', Scalar (PInt 10))] = ([], Inr (Keys [PStr ''b'']))"
proof -
  let ?none = "\<lparr>env_df = chat_table, env_filtered = chat_table\<lparr>rows := []\<rparr>\<rparr>"
  let ?b = "\<lparr>env_df = chat_table,
             env_filtered =
               chat_table\<lparr>rows := [chat_row 2 (PStr ''b'') 0 (PStr ''user'') (PStr ''hi there'') 10,
                                   chat_row 3 (PStr ''b'') 1 PNone (PStr ''abc'') 10]\<rparr>\<rparr>"
  let ?there = "\<lparr>env_df = chat_table,
                 env_filtered =
                   chat_table\<lparr>rows := [chat_row 2 (PStr ''b'') 0 (PStr ''user'') (PStr ''hi there'') 10]\<rparr>\<rparr>"
  let ?only = "\<lparr>env_df = message_only_table, env_filtered = message_only_table\<rparr>"
  have f1: "sampler_filter lib0 chat_table [(''turns'', Scalar (PInt 0))] = Inr ?none"
    by code_simp
  have f2: "search_filter lib0 chat_table ''zzz'' True False [] = ([], Inr ?none)"
    by code_simp
  have f3: "sampler_filter lib0 chat_table [(''turns'', PyTuple [PStr ''x''])] = Inl TypeError"
    by code_simp
  have f4: "search_filter lib0 chat_table ''Hi'' True False [(''turns'', PyTuple [PStr ''x''])] =
              ([], Inl TypeError)"
    by code_simp
  have f5: "sampler_filter lib0 message_only_table [] = Inr ?only"
    by code_simp
  have f6: "sampler_filter lib0 chat_table [(''turns'', Scalar (PInt 10))] = Inr ?b"
    by code_simp
  have f7: "search_filter lib0 chat_table ''there'' True False [(''turns'', Scalar (PInt 10))] =
              ([], Inr ?there)"
    by code_simp
  have e: "df_empty (env_filtered ?none)"
    by code_simp
  have ne: "\<not> df_empty (env_filtered ?only)"
    by code_simp
  have absent: "\<not> in_columns message_only_table ''conv_id''"
    by code_simp
  have present: "in_columns chat_table ''conv_id''"
    by code_simp
  have req: "list_all (in_columns chat_table) required_columns"
    by code_simp
  have r6: "filter_subset lib0 rnd0 chat_table True ''conv_id'' [(''turns'', Scalar (PInt 10))] =
              Inr (Keys [PStr ''b''])"
    by code_simp
  have r7: "search_text_matches lib0 rnd0 chat_table ''there'' True False True
              [(''turns'', Scalar (PInt 10))] = ([], Inr (Keys [PStr ''b'']))"
    by code_simp
  from no_match_returns_None
         [where lib = lib0 and rnd = rnd0 and d = chat_table and return_all = True
            and conv_id_colname = "''conv_id''" and kwargs = "[(''turns'', Scalar (PInt 0))]"
            and s = ?none]
    f1 e
  have a: "filter_subset lib0 rnd0 chat_table True ''conv_id'' [(''turns'', Scalar (PInt 0))] =
             Inr ReturnNone"
    by blast
  from no_match_returns_None
         [where lib = lib0 and rnd = rnd0 and d = chat_table and return_all = True
            and t = "''zzz''" and case_sensitive = True and from_start = False
            and kwargs = "[]" and ws = "[]" and s' = ?none]
    f2 e req
  have b: "search_text_matches lib0 rnd0 chat_table ''zzz'' True False True [] =
             ([], Inr ReturnNone)"
    by blast
  from no_match_returns_None
         [where lib = lib0 and rnd = rnd0 and d = chat_table and return_all = True
            and conv_id_colname = "''conv_id''" and kwargs = "[(''turns'', PyTuple [PStr ''x''])]"
            and e = TypeError]
    f3
  have c: "filter_subset lib0 rnd0 chat_table True ''conv_id'' [(''turns'', PyTuple [PStr ''x''])] =
             Inl TypeError"
    by blast
  from no_match_returns_None
         [where lib = lib0 and rnd = rnd0 and d = chat_table and return_all = True
            and t = "''Hi''" and case_sensitive = True and from_start = False
            and kwargs = "[(''turns'', PyTuple [PStr ''x''])]" and ws = "[]" and e = TypeError]
    f4 req
  have c': "search_text_matches lib0 rnd0 chat_table ''Hi'' True False True
              [(''turns'', PyTuple [PStr ''x''])] = ([], Inl TypeError)"
    by blast
  from no_match_returns_None
         [where lib = lib0 and rnd = rnd0 and d = message_only_table and return_all = True
            and conv_id_colname = "''conv_id''" and kwargs = "[]" and s = ?only]
    f5 ne absent
  have k: "filter_subset lib0 rnd0 message_only_table True ''conv_id'' [] =
             Inl (KeyError ''conv_id'')"
    by blast
  from no_match_returns_None
         [where lib = lib0 and rnd = rnd0 and d = chat_table and return_all = True
            and conv_id_colname = "''conv_id''" and kwargs = "[(''turns'', Scalar (PInt 10))]"
            and s = ?b]
    f6 present r6
  have g: "filter_subset lib0 rnd0 chat_table True ''conv_id'' [(''turns'', Scalar (PInt 10))] =
             Inr (Keys [PStr ''b''])"
    by blast
  from no_match_returns_None
         [where lib = lib0 and rnd = rnd0 and d = chat_table and return_all = True
            and t = "''there''" and case_sensitive = True and from_start = False
            and kwargs = "[(''turns'', Scalar (PInt 10))]" and ws = "[]" and s' = ?there]
    f7 req r7
  have h: "search_text_matches lib0 rnd0 chat_table ''there'' True False True
             [(''turns'', Scalar (PInt 10))] = ([], Inr (Keys [PStr ''b'']))"
    by blast
  from a b c c' k g h show ?thesis by blast
qed

end
